theory Spec2Isabelle
  imports Complex_Main "HOL-Library.Multiset"
begin

section \<open>Python values\<close>

text \<open>
  The command \<^verbatim>\<open>edit_file\<close> of \<^verbatim>\<open>src/commands/template.py\<close> works on objects
  decoded from JSON: the workspace configuration and the response of the matching
  service. A decoded value is \<^verbatim>\<open>None\<close>, a \<^verbatim>\<open>bool\<close>, an \<^verbatim>\<open>int\<close>, a
  \<^verbatim>\<open>float\<close>, a \<^verbatim>\<open>str\<close>, a \<^verbatim>\<open>list\<close> or a \<^verbatim>\<open>dict\<close> with string keys.
  A finite float is the rational number it denotes, so comparisons between numbers are
  exact, as they are in Python between \<^verbatim>\<open>int\<close> and \<^verbatim>\<open>float\<close>. The decoder
  also accepts the names \<^verbatim>\<open>NaN\<close>, \<^verbatim>\<open>Infinity\<close> and \<^verbatim>\<open>-Infinity\<close> for the
  three floats that are not finite. A dict is the list of its items in insertion order;
  a decoded dict has no key twice. A string is the list of its bytes in UTF-8, so a
  character outside ASCII is a run of bytes from 128 on.
\<close>

datatype nonfinite = NaN | Infinity | MinusInfinity

datatype json =
    JNull
  | JBool bool
  | JInt int
  | JFloat rat
  | JSpecial nonfinite
  | JStr string
  | JList "json list"
  | JDict "(string \<times> json) list"

text \<open>
  The exception classes that the code or its collaborators can raise. \<open>ValueError\<close> and
  \<open>IndexError\<close> are the two classes the selection handlers catch; \<open>OtherException\<close>
  is any other subclass of \<^verbatim>\<open>Exception\<close>; \<open>KeyboardInterrupt\<close> and \<open>SystemExit\<close>
  derive from \<^verbatim>\<open>BaseException\<close> only, so \<^verbatim>\<open>except Exception\<close> lets them pass.
\<close>

datatype exn =
    ValueError
  | IndexError
  | TypeError
  | KeyError
  | AttributeError
  | OverflowError
  | OtherException
  | KeyboardInterrupt
  | SystemExit

definition is_Exception :: "exn \<Rightarrow> bool" where
  "is_Exception e = (e \<noteq> KeyboardInterrupt \<and> e \<noteq> SystemExit)"

definition is_selection_error :: "exn \<Rightarrow> bool" where
  \<comment> \<open>\<^verbatim>\<open>except (ValueError, IndexError)\<close>\<close>
  "is_selection_error e = (e = ValueError \<or> e = IndexError)"

fun bind_e :: "exn + 'a \<Rightarrow> ('a \<Rightarrow> exn + 'b) \<Rightarrow> exn + 'b" where
  "bind_e (Inl e) f = Inl e"
| "bind_e (Inr x) f = f x"

subsection \<open>Truth value, numbers and comparison\<close>

fun py_truthy :: "json \<Rightarrow> bool" where
  "py_truthy JNull = False"
| "py_truthy (JBool b) = b"
| "py_truthy (JInt i) = (i \<noteq> 0)"
| "py_truthy (JFloat r) = (r \<noteq> 0)"
| "py_truthy (JSpecial s) = True"
| "py_truthy (JStr s) = (s \<noteq> [])"
| "py_truthy (JList xs) = (xs \<noteq> [])"
| "py_truthy (JDict kvs) = (kvs \<noteq> [])"

datatype number = Finite rat | NonFinite nonfinite

fun number_of :: "json \<Rightarrow> number option" where
  \<comment> \<open>the value of a number; \<^verbatim>\<open>bool\<close> is a subclass of \<^verbatim>\<open>int\<close>\<close>
  "number_of (JBool b) = Some (Finite (if b then 1 else 0))"
| "number_of (JInt i) = Some (Finite (of_int i))"
| "number_of (JFloat r) = Some (Finite r)"
| "number_of (JSpecial s) = Some (NonFinite s)"
| "number_of _ = None"

fun num_of :: "json \<Rightarrow> rat option" where
  \<comment> \<open>the value of a finite number\<close>
  "num_of (JBool b) = Some (if b then 1 else 0)"
| "num_of (JInt i) = Some (of_int i)"
| "num_of (JFloat r) = Some r"
| "num_of _ = None"

fun num_lt :: "number \<Rightarrow> number \<Rightarrow> bool" where
  \<comment> \<open>\<^verbatim>\<open><\<close> on numbers: every comparison with \<^verbatim>\<open>NaN\<close> is false\<close>
  "num_lt (Finite a) (Finite b) = (a < b)"
| "num_lt (Finite a) (NonFinite t) = (t = Infinity)"
| "num_lt (NonFinite s) (Finite b) = (s = MinusInfinity)"
| "num_lt (NonFinite s) (NonFinite t) = (s = MinusInfinity \<and> t = Infinity)"

fun num_same :: "number \<Rightarrow> number \<Rightarrow> bool" where
  \<comment> \<open>the same object or equal, the test a list comparison applies to its items: every
      \<^verbatim>\<open>NaN\<close> of a decoded document is the decoder's one constant\<close>
  "num_same (Finite a) (Finite b) = (a = b)"
| "num_same (NonFinite s) (NonFinite t) = (s = t)"
| "num_same _ _ = False"

definition float_0_9 :: rat where
  \<comment> \<open>the double that the literal \<^verbatim>\<open>0.9\<close> denotes\<close>
  "float_0_9 = 8106479329266893 / 9007199254740992"

definition float_0_8 :: rat where
  \<comment> \<open>the double that the literal \<^verbatim>\<open>0.8\<close> denotes\<close>
  "float_0_8 = 7205759403792794 / 9007199254740992"

definition py_gt_float :: "json \<Rightarrow> rat \<Rightarrow> exn + bool" where
  \<comment> \<open>\<^verbatim>\<open>x > f\<close> for a finite float \<open>f\<close>: defined on numbers only\<close>
  "py_gt_float x f =
     (case number_of x of Some a \<Rightarrow> Inr (num_lt (Finite f) a) | None \<Rightarrow> Inl TypeError)"

fun str_lt :: "string \<Rightarrow> string \<Rightarrow> bool" where
  \<comment> \<open>\<^verbatim>\<open>s < t\<close> on strings: lexicographic by character code\<close>
  "str_lt [] [] = False"
| "str_lt [] (d # ds) = True"
| "str_lt (c # cs) [] = False"
| "str_lt (c # cs) (d # ds) =
     (if c = d then str_lt cs ds else (of_char c :: nat) < of_char d)"

fun py_eq :: "json \<Rightarrow> json \<Rightarrow> bool" where
  \<comment> \<open>the test of a list comparison on two items, \<^verbatim>\<open>x is y or x == y\<close>: numbers by
      value, containers by content; it never raises\<close>
  "py_eq JNull JNull = True"
| "py_eq (JStr s) (JStr t) = (s = t)"
| "py_eq (JList xs) (JList ys) = list_all2 py_eq xs ys"
| "py_eq (JDict kvs) (JDict kws) =
     (length kvs = length kws \<and>
      (\<forall>(k, v) \<in> set kvs. case map_of kws k of None \<Rightarrow> False | Some w \<Rightarrow> py_eq v w))"
| "py_eq x y =
     (case (number_of x, number_of y) of (Some a, Some b) \<Rightarrow> num_same a b | _ \<Rightarrow> False)"

fun py_lt :: "json \<Rightarrow> json \<Rightarrow> exn + bool"
  and py_lt_list :: "json list \<Rightarrow> json list \<Rightarrow> exn + bool" where
  \<comment> \<open>\<^verbatim>\<open>x < y\<close>: numbers with numbers, strings with strings, lists with lists
      (at the first pair of unequal items); anything else is a \<^verbatim>\<open>TypeError\<close>\<close>
  "py_lt (JStr s) (JStr t) = Inr (str_lt s t)"
| "py_lt (JList xs) (JList ys) = py_lt_list xs ys"
| "py_lt x y =
     (case (number_of x, number_of y) of
        (Some a, Some b) \<Rightarrow> Inr (num_lt a b)
      | _ \<Rightarrow> Inl TypeError)"
| "py_lt_list [] [] = Inr False"
| "py_lt_list [] (y # ys) = Inr True"
| "py_lt_list (x # xs) [] = Inr False"
| "py_lt_list (x # xs) (y # ys) = (if py_eq x y then py_lt_list xs ys else py_lt x y)"

subsection \<open>Subscripts, \<^verbatim>\<open>dict.get\<close> and iteration\<close>

definition py_getitem :: "json \<Rightarrow> string \<Rightarrow> exn + json" where
  \<comment> \<open>\<^verbatim>\<open>obj[key]\<close> with a string key\<close>
  "py_getitem obj key =
     (case obj of
        JDict kvs \<Rightarrow> (case map_of kvs key of None \<Rightarrow> Inl KeyError | Some v \<Rightarrow> Inr v)
      | _ \<Rightarrow> Inl TypeError)"

definition py_get :: "json \<Rightarrow> string \<Rightarrow> exn + json option" where
  \<comment> \<open>\<^verbatim>\<open>obj.get(key)\<close>: only a dict has the method; \<open>None\<close> is Python's \<^verbatim>\<open>None\<close>\<close>
  "py_get obj key =
     (case obj of JDict kvs \<Rightarrow> Inr (map_of kvs key) | _ \<Rightarrow> Inl AttributeError)"

definition py_get_default :: "json \<Rightarrow> string \<Rightarrow> json \<Rightarrow> exn + json" where
  \<comment> \<open>\<^verbatim>\<open>obj.get(key, default)\<close>: the default stands in for an absent key only\<close>
  "py_get_default obj key dflt =
     bind_e (py_get obj key) (\<lambda>r. Inr (case r of None \<Rightarrow> dflt | Some v \<Rightarrow> v))"

definition py_iter :: "json \<Rightarrow> exn + json list" where
  \<comment> \<open>the items a \<^verbatim>\<open>for\<close> loop visits: of a list its items, of a string its
      characters (here its bytes: more items for a character outside ASCII, each of
      them a string all the same), of a dict its keys; other values are not iterable\<close>
  "py_iter obj =
     (case obj of
        JList xs \<Rightarrow> Inr xs
      | JStr s \<Rightarrow> Inr (map (\<lambda>c. JStr [c]) s)
      | JDict kvs \<Rightarrow> Inr (map (\<lambda>kv. JStr (fst kv)) kvs)
      | _ \<Rightarrow> Inl TypeError)"

definition py_index :: "'a list \<Rightarrow> int \<Rightarrow> exn + 'a" where
  \<comment> \<open>\<^verbatim>\<open>xs[i]\<close> on a list: a negative index counts from the end\<close>
  "py_index xs i =
     (if 0 \<le> i \<and> i < int (length xs) then Inr (xs ! nat i)
      else if i < 0 \<and> - int (length xs) \<le> i then Inr (xs ! nat (int (length xs) + i))
      else Inl IndexError)"

subsection \<open>Strings\<close>

definition lower_char :: "char \<Rightarrow> char" where
  "lower_char c =
     (if (65::nat) \<le> of_char c \<and> of_char c \<le> (90::nat)
      then char_of (of_char c + (32::nat)) else c)"

definition str_lower :: "string \<Rightarrow> string" where
  \<comment> \<open>\<^verbatim>\<open>s.lower()\<close> on the ASCII letters; bytes outside ASCII are left as they are.
      Python lowers other letters too, but never to one of the letters of
      \<^verbatim>\<open>recent\<close> (only U+0130 and U+212A give an ASCII letter, \<^verbatim>\<open>i\<close> and
      \<^verbatim>\<open>k\<close>), so the test \<^verbatim>\<open>"recent" in s.lower()\<close>, the one use of the
      function, is the same.\<close>
  "str_lower s = map lower_char s"

fun starts_with :: "string \<Rightarrow> string \<Rightarrow> bool" where
  "starts_with s [] = True"
| "starts_with [] (p # ps) = False"
| "starts_with (c # cs) (p # ps) = (c = p \<and> starts_with cs ps)"

fun contains :: "string \<Rightarrow> string \<Rightarrow> bool" where
  \<comment> \<open>\<^verbatim>\<open>sub in s\<close>\<close>
  "contains [] sub = (sub = [])"
| "contains (c # cs) sub = (starts_with (c # cs) sub \<or> contains cs sub)"

definition is_space :: "char \<Rightarrow> bool" where
  \<comment> \<open>the white space that \<^verbatim>\<open>int\<close> skips: tab, line feed, vertical tab, form
      feed, carriage return and space\<close>
  "is_space c =
     (((9::nat) \<le> of_char c \<and> of_char c \<le> (13::nat)) \<or> of_char c = (32::nat))"

definition is_digit :: "char \<Rightarrow> bool" where
  "is_digit c = ((48::nat) \<le> of_char c \<and> of_char c \<le> (57::nat))"

definition digit_val :: "char \<Rightarrow> int" where
  "digit_val c = int (of_char c) - 48"

definition strip :: "string \<Rightarrow> string" where
  "strip s = rev (dropWhile is_space (rev (dropWhile is_space s)))"

fun parse_digits :: "int \<Rightarrow> string \<Rightarrow> int option" where
  \<comment> \<open>the rest of a decimal numeral whose value so far is the accumulator and whose
      last character was a digit; one underscore may stand between two digits\<close>
  "parse_digits acc [] = Some acc"
| "parse_digits acc [c] = (if is_digit c then Some (acc * 10 + digit_val c) else None)"
| "parse_digits acc (c # d # ds) =
     (if is_digit c then parse_digits (acc * 10 + digit_val c) (d # ds)
      else if c = CHR ''_'' \<and> is_digit d then parse_digits (acc * 10 + digit_val d) ds
      else None)"

definition parse_unsigned :: "string \<Rightarrow> int option" where
  "parse_unsigned s =
     (case s of
        [] \<Rightarrow> None
      | c # cs \<Rightarrow> if is_digit c then parse_digits (digit_val c) cs else None)"

definition is_ascii :: "string \<Rightarrow> bool" where
  "is_ascii s = list_all (\<lambda>c. of_char c < (128::nat)) s"

definition py_int :: "nat \<Rightarrow> (string \<Rightarrow> int option) \<Rightarrow> string \<Rightarrow> exn + int" where
  \<comment> \<open>\<^verbatim>\<open>int(s)\<close>. On a string of ASCII characters: surrounding white space, an
      optional sign, decimal digits; more digits than the interpreter's limit
      (\<^verbatim>\<open>sys.get_int_max_str_digits()\<close>, 4300 unless configured, 0 for none) are a
      \<^verbatim>\<open>ValueError\<close>. On a string with a character outside ASCII the result rests on
      the Unicode tables of digits and spaces, which are not embedded: it is the second
      parameter, \<open>None\<close> for a \<^verbatim>\<open>ValueError\<close>.\<close>
  "py_int max_str_digits int_of_unicode s =
     (if \<not> is_ascii s then
        (case int_of_unicode s of None \<Rightarrow> Inl ValueError | Some n \<Rightarrow> Inr n)
      else if 0 < max_str_digits \<and> max_str_digits < length (filter is_digit s) then
        Inl ValueError
      else
        (case strip s of
           [] \<Rightarrow> Inl ValueError
         | c # cs \<Rightarrow>
             if c = CHR ''-'' then
               (case parse_unsigned cs of None \<Rightarrow> Inl ValueError | Some n \<Rightarrow> Inr (- n))
             else if c = CHR ''+'' then
               (case parse_unsigned cs of None \<Rightarrow> Inl ValueError | Some n \<Rightarrow> Inr n)
             else
               (case parse_unsigned (c # cs) of None \<Rightarrow> Inl ValueError | Some n \<Rightarrow> Inr n)))"

definition posix_join :: "string \<Rightarrow> string \<Rightarrow> string" where
  "posix_join a b =
     (if starts_with b ''/'' then b
      else if a = [] \<or> last a = CHR ''/'' then a @ b
      else a @ ''/'' @ b)"

definition os_path_join :: "json \<Rightarrow> json \<Rightarrow> exn + string" where
  \<comment> \<open>\<^verbatim>\<open>os.path.join(a, b)\<close> of \<^verbatim>\<open>posixpath\<close>: both arguments must be strings\<close>
  "os_path_join a b =
     (case (a, b) of
        (JStr s, JStr t) \<Rightarrow> Inr (posix_join s t)
      | _ \<Rightarrow> Inl TypeError)"

section \<open>Output, collaborators and effects\<close>

text \<open>
  A line of output is kept as the pieces of its f-string: the literal text, and the
  values spliced in, each left as the value that Python's \<^verbatim>\<open>str()\<close> or format
  specification renders. \<open>Num\<close> is an \<^verbatim>\<open>int\<close> in decimal, \<open>Fix2\<close> a number under
  \<^verbatim>\<open>:.2f\<close>, \<open>Exc\<close> the message of a caught exception.
\<close>

datatype piece =
    Lit string
  | Val json
  | Num int
  | Fix2 number
  | Exc exn

type_synonym msg = "piece list"

definition int_too_large :: "int \<Rightarrow> bool" where
  \<comment> \<open>an \<^verbatim>\<open>int\<close> that rounds beyond the largest double cannot be converted
      to \<^verbatim>\<open>float\<close>\<close>
  "int_too_large i = (\<bar>i\<bar> \<ge> 2 ^ 1024 - 2 ^ 970)"

fun fmt_2f :: "json \<Rightarrow> exn + piece" where
  \<comment> \<open>\<^verbatim>\<open>f"{x:.2f}"\<close>\<close>
  "fmt_2f (JBool b) = Inr (Fix2 (Finite (if b then 1 else 0)))"
| "fmt_2f (JInt i) =
     (if int_too_large i then Inl OverflowError else Inr (Fix2 (Finite (of_int i))))"
| "fmt_2f (JFloat r) = Inr (Fix2 (Finite r))"
| "fmt_2f (JSpecial s) = Inr (Fix2 (NonFinite s))"
| "fmt_2f (JStr s) = Inl ValueError"
| "fmt_2f _ = Inl TypeError"

definition of_opt :: "string option \<Rightarrow> json" where
  \<comment> \<open>an \<^verbatim>\<open>Optional[str]\<close> as a value\<close>
  "of_opt w = (case w of None \<Rightarrow> JNull | Some s \<Rightarrow> JStr s)"

text \<open>
  Everything the command does to the outside world is an event, in the order it happens:
  what it prints, what it asks the user, and each call of a collaborator with its
  arguments.
\<close>

datatype event =
    Print msg
  | Echo msg
  | Prompt string
  | Call_get_current_workspace
  | Call_get_workspaces
  | Call_get_recent_files
  | Call_get_codebase_structure json
  | Call_get_framework_specific_prompt "string option" json string
  | Call_json_prompt json
  | Call_cache_recent_file string
  | Call_open_in_editor string
  | Call_os_system string

text \<open>
  The collaborators are imported from modules outside \<^verbatim>\<open>commands/template.py\<close>; the
  command sees only what each call returns or raises, so each is a parameter. The
  command calls each of them at most once in a run, hence a function of the arguments
  suffices. \<open>default_project_root\<close> is the directory two levels above the module file.
  The last two fields are the two things \<^verbatim>\<open>int\<close> takes from the interpreter: its
  limit on the number of digits, and its reading of a string that has a character outside
  ASCII.
\<close>

record env =
  get_current_workspace :: "exn + string option"
  get_workspaces :: "exn + json"
  default_project_root :: string
  get_recent_files :: "exn + string list"
  get_codebase_structure :: "json \<Rightarrow> exn + json"
  get_framework_specific_prompt :: "string option \<Rightarrow> json \<Rightarrow> string \<Rightarrow> exn + json"
  json_prompt :: "json \<Rightarrow> exn + json"
  typer_prompt :: "string \<Rightarrow> exn + string"
  cache_recent_file :: "string \<Rightarrow> exn + unit"
  open_in_editor :: "string \<Rightarrow> exn + unit"
  int_max_str_digits :: nat
  int_of_unicode :: "string \<Rightarrow> int option"

text \<open>
  A computation yields the events it caused and then a value or the exception that
  stopped it.
\<close>

type_synonym 'a comp = "event list \<times> (exn + 'a)"

definition ret :: "'a \<Rightarrow> 'a comp" where
  "ret x = ([], Inr x)"

definition raise :: "exn \<Rightarrow> 'a comp" where
  "raise e = ([], Inl e)"

definition lift :: "exn + 'a \<Rightarrow> 'a comp" where
  \<comment> \<open>a step without effect that may raise\<close>
  "lift r = ([], r)"

definition emit :: "event \<Rightarrow> unit comp" where
  "emit ev = ([ev], Inr ())"

definition call :: "event \<Rightarrow> exn + 'a \<Rightarrow> 'a comp" where
  \<comment> \<open>a collaborator is called, and returns or raises\<close>
  "call ev r = ([ev], r)"

fun bindc :: "'a comp \<Rightarrow> ('a \<Rightarrow> 'b comp) \<Rightarrow> 'b comp" where
  "bindc (tr, Inl e) f = (tr, Inl e)"
| "bindc (tr, Inr x) f = (case f x of (tr', r) \<Rightarrow> (tr @ tr', r))"

definition seqc :: "'a comp \<Rightarrow> 'b comp \<Rightarrow> 'b comp" where
  "seqc m n = bindc m (\<lambda>_. n)"

fun try_except :: "'a comp \<Rightarrow> (exn \<Rightarrow> bool) \<Rightarrow> (exn \<Rightarrow> 'a comp) \<Rightarrow> 'a comp" where
  \<comment> \<open>\<^verbatim>\<open>try: m except <classes> as e: h(e)\<close>\<close>
  "try_except (tr, Inl e) catches h =
     (if catches e then (case h e of (tr', r) \<Rightarrow> (tr @ tr', r)) else (tr, Inl e))"
| "try_except (tr, Inr x) catches h = (tr, Inr x)"

definition os_system :: "string \<Rightarrow> unit comp" where
  \<comment> \<open>\<^verbatim>\<open>os.system(cmd)\<close>: a command with a null character is refused\<close>
  "os_system cmd =
     (if CHR 0x00 \<in> set cmd then raise ValueError else emit (Call_os_system cmd))"

section \<open>The command \<^verbatim>\<open>edit_file\<close>\<close>

subsection \<open>Parsing and ranking the matches (lines 196 to 207)\<close>

record match =
  file_path :: json
  confidence_score :: json
  file_type :: json

definition parse_match :: "json \<Rightarrow> exn + match" where
  \<comment> \<open>the dict appended for one item of the results\<close>
  "parse_match m =
     bind_e (py_get_default m ''file'' (JStr [])) (\<lambda>fp.
     bind_e (py_get_default m ''confidence_score'' (JFloat float_0_8)) (\<lambda>cs.
     bind_e (py_get_default m ''file_type'' (JStr ''unknown'')) (\<lambda>ft.
       Inr \<lparr>file_path = fp, confidence_score = cs, file_type = ft\<rparr>)))"

fun parse_all :: "json list \<Rightarrow> exn + match list" where
  "parse_all [] = Inr []"
| "parse_all (m # ms) =
     bind_e (parse_match m) (\<lambda>x. bind_e (parse_all ms) (\<lambda>xs. Inr (x # xs)))"

definition parse_matches :: "json \<Rightarrow> exn + match list" where
  \<comment> \<open>\<^verbatim>\<open>for match in response.get("results", []): matches.append({...})\<close>\<close>
  "parse_matches response =
     bind_e (py_get_default response ''results'' (JList [])) (\<lambda>results.
     bind_e (py_iter results) parse_all)"

text \<open>
  \<^verbatim>\<open>matches.sort(key=..., reverse=True)\<close> is the built-in stable sort, descending by
  the key, which compares keys with \<^verbatim>\<open><\<close> only and fails when a comparison fails.
  It is modelled by insertion from the right: an item goes in front of the first item
  that its key is not smaller than, so equal keys keep their order. The built-in sort
  may compare other pairs than this one does; that changes neither the result when the
  keys are totally ordered, nor whether a comparison fails when no key is a list. When a
  key is \<^verbatim>\<open>NaN\<close> the keys are not totally ordered: the built-in sort then leaves
  some permutation of the list, which need not be the one computed here.
\<close>

fun insert_desc :: "match \<Rightarrow> match list \<Rightarrow> exn + match list" where
  "insert_desc x [] = Inr [x]"
| "insert_desc x (y # ys) =
     bind_e (py_lt (confidence_score x) (confidence_score y)) (\<lambda>smaller.
       if smaller then bind_e (insert_desc x ys) (\<lambda>zs. Inr (y # zs))
       else Inr (x # y # ys))"

fun sort_matches :: "match list \<Rightarrow> exn + match list" where
  "sort_matches [] = Inr []"
| "sort_matches (x # xs) = bind_e (sort_matches xs) (insert_desc x)"

definition rank :: "json list \<Rightarrow> exn + match list" where
  \<comment> \<open>parsing the items of a result list, then sorting\<close>
  "rank raw_results = bind_e (parse_all raw_results) sort_matches"

subsection \<open>Resolution of the ranked matches (lines 209 to 239)\<close>

fun menu_lines :: "int \<Rightarrow> match list \<Rightarrow> unit comp" where
  \<comment> \<open>\<^verbatim>\<open>for i, match in enumerate(...): typer.echo(f"{i+1}. ...")\<close>\<close>
  "menu_lines i [] = ret ()"
| "menu_lines i (m # ms) =
     bindc (lift (fmt_2f (confidence_score m))) (\<lambda>c.
     seqc (emit (Echo [Num (i + 1), Lit ''. '', Val (file_type m), Lit '' file: '',
                       Val (file_path m), Lit '' (confidence: '', c, Lit '')'']))
          (menu_lines (i + 1) ms))"

definition open_selected :: "env \<Rightarrow> json \<Rightarrow> match list \<Rightarrow> string \<Rightarrow> msg comp" where
  \<comment> \<open>the body of the \<^verbatim>\<open>try\<close> of lines 230 to 237\<close>
  "open_selected env project_root matches choice =
     bindc (lift (py_int (int_max_str_digits env) (int_of_unicode env) choice)) (\<lambda>n.
     bindc (lift (py_index matches (n - 1))) (\<lambda>selected.
     bindc (lift (os_path_join project_root (file_path selected))) (\<lambda>path.
     seqc (emit (Print [Lit ''User selected file: '', Lit path]))
    (seqc (call (Call_cache_recent_file path) (cache_recent_file env path))
    (seqc (emit (Print [Lit ''Opening file in editor: '', Lit path]))
    (seqc (call (Call_open_in_editor path) (open_in_editor env path))
          (ret [Lit ''Opened '', Val (file_type selected), Lit '' file: '', Lit path])))))))"

definition resolve :: "env \<Rightarrow> json \<Rightarrow> match list \<Rightarrow> msg comp" where
  "resolve env project_root matches =
     (case matches of
        [] \<Rightarrow> ret [Lit ''No matching files found'']
      | first # _ \<Rightarrow>
          bindc (lift (py_gt_float (confidence_score first) float_0_9)) (\<lambda>high.
          if high then
            bindc (lift (os_path_join project_root (file_path first))) (\<lambda>path.
            seqc (emit (Print [Lit ''High confidence match found: '', Lit path]))
           (seqc (call (Call_cache_recent_file path) (cache_recent_file env path))
           (seqc (call (Call_open_in_editor path) (open_in_editor env path))
                 (ret [Lit ''Opened file: '', Lit path]))))
          else
            seqc (emit (Echo [Lit ''Multiple matches found:'']))
           (seqc (menu_lines 0 (take 5 matches))
           (bindc (call (Prompt ''Which file to edit? (number)'')
                        (typer_prompt env ''Which file to edit? (number)'')) (\<lambda>choice.
            try_except (open_selected env project_root matches choice)
              is_selection_error (\<lambda>e. ret [Lit ''Invalid selection'']))))))"

subsection \<open>The recent-files shortcut (lines 167 to 181)\<close>

fun recent_lines :: "int \<Rightarrow> string list \<Rightarrow> unit comp" where
  "recent_lines i [] = ret ()"
| "recent_lines i (p # ps) =
     seqc (emit (Echo [Num (i + 1), Lit ''. '', Lit p])) (recent_lines (i + 1) ps)"

definition open_recent :: "env \<Rightarrow> string list \<Rightarrow> string \<Rightarrow> msg comp" where
  \<comment> \<open>the body of the \<^verbatim>\<open>try\<close> of lines 175 to 178\<close>
  "open_recent env recent_files choice =
     bindc (lift (py_int (int_max_str_digits env) (int_of_unicode env) choice)) (\<lambda>n.
     bindc (lift (py_index recent_files (n - 1))) (\<lambda>selected.
     seqc (emit (Print [Lit ''========== Opening file: '', Lit selected]))
    (seqc (os_system (''code --goto '' @ selected))
          (ret [Lit ''========== Opened recent file: '', Lit selected]))))"

definition recent_shortcut :: "env \<Rightarrow> msg comp" where
  "recent_shortcut env =
     seqc (emit (Print [Lit ''Handling recent files request'']))
    (bindc (call Call_get_recent_files (get_recent_files env)) (\<lambda>recent_files.
     if recent_files \<noteq> [] then
       seqc (emit (Echo [Lit ''Recent files:'']))
      (seqc (recent_lines 0 (take 5 recent_files))
      (bindc (call (Prompt ''Which file to open? (number)'')
                   (typer_prompt env ''Which file to open? (number)'')) (\<lambda>choice.
       try_except (open_recent env recent_files choice)
         is_selection_error (\<lambda>e. ret [Lit ''========== Invalid selection'']))))
     else ret [Lit ''========== No recent files found'']))"

subsection \<open>Request, service call and resolution (lines 184 to 239)\<close>

definition resolve_response :: "env \<Rightarrow> json \<Rightarrow> json \<Rightarrow> msg comp" where
  \<comment> \<open>lines 196 to 239: parse the response, sort, resolve\<close>
  "resolve_response env project_root response =
     bindc (lift (parse_matches response)) (\<lambda>matches.
     bindc (lift (sort_matches matches)) (\<lambda>matches.
     resolve env project_root matches))"

definition match_description :: "env \<Rightarrow> string option \<Rightarrow> json \<Rightarrow> string \<Rightarrow> msg comp" where
  "match_description env workspace project_root file_description =
     bindc (call (Call_get_codebase_structure project_root)
                 (get_codebase_structure env project_root)) (\<lambda>codebase_structure.
     bindc (call (Call_get_framework_specific_prompt workspace codebase_structure file_description)
                 (get_framework_specific_prompt env workspace codebase_structure file_description))
           (\<lambda>prompt.
     seqc (emit (Print [Lit ''========== Codebase structure: '', Val codebase_structure]))
    (seqc (emit (Print [Lit ''DeepSeek prompt: '', Val prompt]))
    (bindc (call (Call_json_prompt prompt) (json_prompt env prompt)) (\<lambda>response.
     seqc (emit (Print [Lit ''DeepSeek response: '', Val response]))
          (resolve_response env project_root response))))))"

subsection \<open>The whole command (lines 135 to 242)\<close>

definition with_project_root :: "env \<Rightarrow> string option \<Rightarrow> json \<Rightarrow> string \<Rightarrow> msg comp" where
  \<comment> \<open>lines 162 to 239, once the project root is known\<close>
  "with_project_root env workspace project_root file_description =
     seqc (emit (Print [Lit ''DEBUG: Project root set to: '', Val project_root]))
    (seqc (emit (Print [Lit ''========== Starting edit_file with: '', Lit file_description]))
    (if contains (str_lower file_description) ''recent'' then recent_shortcut env
     else match_description env workspace project_root file_description))"

definition quoted :: "string \<Rightarrow> string" where
  \<comment> \<open>a name between single quotes\<close>
  "quoted s = [CHR 0x27] @ s @ [CHR 0x27]"

definition workspace_not_found :: "string \<Rightarrow> msg comp" where
  \<comment> \<open>lines 153 and 154\<close>
  "workspace_not_found name =
     seqc (emit (Print [Lit ''DEBUG: Current workspace '', Lit (quoted name),
                        Lit '' not found in config'']))
          (ret [Lit ''Current workspace '', Lit (quoted name), Lit '' not found''])"

definition configured_workspace :: "env \<Rightarrow> string \<Rightarrow> string \<Rightarrow> msg comp" where
  \<comment> \<open>lines 149 to 156, the branch of a current workspace that is set, and what
      follows it. \<^verbatim>\<open>not workspace_config\<close> holds of \<^verbatim>\<open>None\<close>, which
      \<^verbatim>\<open>get\<close> returns for an absent name, and of every other false value.\<close>
  "configured_workspace env name file_description =
     bindc (call Call_get_workspaces (get_workspaces env)) (\<lambda>all_workspaces.
     bindc (lift (py_getitem all_workspaces ''workspaces'')) (\<lambda>workspaces.
     bindc (lift (py_get workspaces name)) (\<lambda>workspace_config.
     case workspace_config of
       None \<Rightarrow> workspace_not_found name
     | Some config \<Rightarrow>
         if \<not> py_truthy config then workspace_not_found name
         else
           bindc (lift (py_getitem config ''path'')) (\<lambda>project_root.
           with_project_root env (Some name) project_root file_description))))"

definition with_current_workspace :: "env \<Rightarrow> string \<Rightarrow> msg comp" where
  \<comment> \<open>lines 144 to 239: \<^verbatim>\<open>workspace\<close> is assigned the current workspace, and
      \<^verbatim>\<open>if workspace\<close> holds of a name that is not empty\<close>
  "with_current_workspace env file_description =
     bindc (call Call_get_current_workspace (get_current_workspace env)) (\<lambda>workspace.
     seqc (emit (Print [Lit ''DEBUG: Current workspace: '', Val (of_opt workspace)]))
    (case workspace of
       Some name \<Rightarrow>
         if name \<noteq> [] then configured_workspace env name file_description
         else with_project_root env workspace (JStr (default_project_root env)) file_description
     | None \<Rightarrow>
         with_project_root env workspace (JStr (default_project_root env)) file_description))"

definition edit_file_body :: "env \<Rightarrow> string \<Rightarrow> string option \<Rightarrow> msg comp" where
  \<comment> \<open>the body of the outer \<^verbatim>\<open>try\<close>: the parameter \<^verbatim>\<open>workspace\<close> is printed
      (line 142), then overwritten (line 144)\<close>
  "edit_file_body env file_description workspace =
     seqc (emit (Print [Lit ''DEBUG: Getting workspace config for '',
                        Lit [CHR 0x27], Val (of_opt workspace), Lit [CHR 0x27]]))
          (with_current_workspace env file_description)"

definition guarded :: "msg comp \<Rightarrow> msg comp" where
  \<comment> \<open>the outer \<^verbatim>\<open>try\<close> with its handler, lines 140 and 240 to 242\<close>
  "guarded body =
     try_except body is_Exception
       (\<lambda>e. seqc (emit (Print [Lit ''DEBUG: Error in edit_file: '', Exc e]))
                  (ret [Lit ''Error: Could not edit file'']))"

definition edit_file :: "env \<Rightarrow> string \<Rightarrow> string option \<Rightarrow> msg comp" where
  "edit_file env file_description workspace =
     seqc (emit (Print [Lit ''DEBUG: Starting edit_file command'']))
          (guarded (edit_file_body env file_description workspace))"

section \<open>Notions used by the properties\<close>

definition expected_record :: "json \<Rightarrow> bool" where
  \<comment> \<open>a raw record of the shape the matching service is expected to send: a dict whose
      \<^verbatim>\<open>confidence_score\<close>, when present, is a finite number; every field is
      optional\<close>
  "expected_record r =
     (case r of
        JDict kvs \<Rightarrow>
          (case map_of kvs ''confidence_score'' of None \<Rightarrow> True | Some v \<Rightarrow> num_of v \<noteq> None)
      | _ \<Rightarrow> False)"

definition numeric_record :: "json \<Rightarrow> bool" where
  \<comment> \<open>a dict whose \<^verbatim>\<open>confidence_score\<close>, when present, is a number, finite or not\<close>
  "numeric_record r =
     (case r of
        JDict kvs \<Rightarrow>
          (case map_of kvs ''confidence_score'' of
             None \<Rightarrow> True
           | Some v \<Rightarrow> number_of v \<noteq> None)
      | _ \<Rightarrow> False)"

definition is_dict :: "json \<Rightarrow> bool" where
  "is_dict r = (case r of JDict kvs \<Rightarrow> True | _ \<Rightarrow> False)"

definition score :: "match \<Rightarrow> rat option" where
  \<comment> \<open>the numeric value of a match's confidence score, if it is a finite number\<close>
  "score m = num_of (confidence_score m)"

definition not_below :: "match \<Rightarrow> match \<Rightarrow> bool" where
  \<comment> \<open>both scores are finite numbers and the first is at least the second\<close>
  "not_below a b = (case (score a, score b) of (Some x, Some y) \<Rightarrow> y \<le> x | _ \<Rightarrow> False)"

definition neg_score :: "match \<Rightarrow> rat" where
  "neg_score m = (case score m of Some a \<Rightarrow> - a | None \<Rightarrow> 0)"

definition example_results :: "json list" where
  "example_results =
     [JDict [(''file'', JStr ''a.py''), (''confidence_score'', JFloat (1 / 2))],
      JDict [(''file'', JStr ''b.py''), (''file_type'', JStr ''module'')],
      JDict [(''file'', JStr ''c.py''), (''confidence_score'', JFloat (1 / 2))],
      JDict [(''file'', JStr ''d.py''), (''confidence_score'', JInt 1)]]"

definition above_threshold :: "match \<Rightarrow> bool" where
  \<comment> \<open>the confidence score is a number strictly greater than \<^verbatim>\<open>0.9\<close>\<close>
  "above_threshold m =
     (case number_of (confidence_score m) of
        Some a \<Rightarrow> num_lt (Finite float_0_9) a
      | None \<Rightarrow> False)"

fun is_prompt :: "event \<Rightarrow> bool" where
  "is_prompt (Prompt q) = True"
| "is_prompt _ = False"

definition auto_opened :: "string \<Rightarrow> msg comp \<Rightarrow> bool" where
  \<comment> \<open>the editor was launched on the path and the user was never asked\<close>
  "auto_opened path out =
     (Call_open_in_editor path \<in> set (fst out) \<and> \<not> list_ex is_prompt (fst out))"

definition example_env :: env where
  \<comment> \<open>no workspace is configured, two files are cached, the service sends four
      candidates, the user answers \<^verbatim>\<open>1\<close>; the replies of the examples are ASCII, so
      the last field is never consulted\<close>
  "example_env =
     \<lparr>get_current_workspace = Inr None,
      get_workspaces = Inr (JDict [(''workspaces'', JDict [])]),
      default_project_root = ''/proj'',
      get_recent_files = Inr [''x.py'', ''y.py''],
      get_codebase_structure = (\<lambda>dir. Inr (JDict [])),
      get_framework_specific_prompt = (\<lambda>workspace structure description. Inr (JStr description)),
      json_prompt = (\<lambda>prompt. Inr (JDict [(''results'', JList example_results)])),
      typer_prompt = (\<lambda>question. Inr ''1''),
      cache_recent_file = (\<lambda>path. Inr ()),
      open_in_editor = (\<lambda>path. Inr ()),
      int_max_str_digits = 4300,
      int_of_unicode = (\<lambda>reply. None)\<rparr>"

definition example_match :: match where
  "example_match =
     \<lparr>file_path = JStr ''a.py'', confidence_score = JFloat (19 / 20),
      file_type = JStr ''module''\<rparr>"

fun is_matching_call :: "event \<Rightarrow> bool" where
  "is_matching_call (Call_get_codebase_structure pr) = True"
| "is_matching_call (Call_get_framework_specific_prompt w s d) = True"
| "is_matching_call (Call_json_prompt p) = True"
| "is_matching_call _ = False"

fun is_effect :: "event \<Rightarrow> bool" where
  "is_effect (Call_cache_recent_file p) = True"
| "is_effect (Call_open_in_editor p) = True"
| "is_effect (Call_os_system c) = True"
| "is_effect _ = False"

fun is_context_event :: "event \<Rightarrow> bool" where
  "is_context_event (Print t) = True"
| "is_context_event Call_get_current_workspace = True"
| "is_context_event Call_get_workspaces = True"
| "is_context_event _ = False"

fun is_print :: "event \<Rightarrow> bool" where
  "is_print (Print t) = True"
| "is_print _ = False"

definition actions :: "event list \<Rightarrow> event list" where
  \<comment> \<open>a run without its debug prints: what is shown to the user, what is asked, and
      the calls of the collaborators\<close>
  "actions tr = filter (\<lambda>ev. \<not> is_print ev) tr"

definition zero_reply_env :: env where
  \<comment> \<open>two candidates of score \<^verbatim>\<open>0.5\<close>, and a user who answers \<^verbatim>\<open>0\<close>\<close>
  "zero_reply_env =
     example_env
       \<lparr>json_prompt := (\<lambda>prompt. Inr (JDict [(''results'', JList
            [JDict [(''file'', JStr ''a.py''), (''confidence_score'', JFloat (1 / 2))],
             JDict [(''file'', JStr ''b.py''), (''confidence_score'', JFloat (1 / 2)),
                    (''file_type'', JStr ''module'')]])])),
        typer_prompt := (\<lambda>question. Inr ''0'')\<rparr>"

definition failing_service_env :: env where
  \<comment> \<open>the matching service raises\<close>
  "failing_service_env = example_env \<lparr>json_prompt := (\<lambda>prompt. Inl OtherException)\<rparr>"

definition ends_in_launch :: "env \<Rightarrow> event list \<Rightarrow> bool" where
  \<comment> \<open>the actions of a run update the cache and launch an editor at the very end only:
      nothing of the kind, or a cache update that raised, or a cache update followed at
      once by the launch on the same path, or the shell command on a cached path\<close>
  "ends_in_launch env acts =
     (\<exists>pre. \<not> list_ex is_effect pre \<and>
        (acts = pre \<or>
         (\<exists>p e. acts = pre @ [Call_cache_recent_file p] \<and> cache_recent_file env p = Inl e) \<or>
         (\<exists>p. acts = pre @ [Call_cache_recent_file p, Call_open_in_editor p]) \<or>
         (\<exists>files f. acts = pre @ [Call_os_system (''code --goto '' @ f)] \<and>
            get_recent_files env = Inr files \<and> f \<in> set files)))"



definition none_score_results :: "json list" where
  \<comment> \<open>two dict records, one with \<^verbatim>\<open>null\<close> for its score\<close>
  "none_score_results =
     [JDict [(''file'', JStr ''a.py''), (''confidence_score'', JNull)],
      JDict [(''file'', JStr ''b.py''), (''confidence_score'', JFloat (1 / 2))]]"
section \<open>Parsing and ranking\<close>

lemma py_lt_numbers:
  "num_of a = Some x \<Longrightarrow> num_of b = Some y \<Longrightarrow> py_lt a b = Inr (x < y)"
  by (cases a; cases b; simp)

lemma parse_match_dict:
  "parse_match (JDict kvs) =
     Inr \<lparr>file_path = (case map_of kvs ''file'' of None \<Rightarrow> JStr [] | Some v \<Rightarrow> v),
          confidence_score =
            (case map_of kvs ''confidence_score'' of None \<Rightarrow> JFloat float_0_8 | Some v \<Rightarrow> v),
          file_type = (case map_of kvs ''file_type'' of None \<Rightarrow> JStr ''unknown'' | Some v \<Rightarrow> v)\<rparr>"
  by (simp add: parse_match_def py_get_default_def py_get_def)

lemma is_dict_iff: "is_dict r \<longleftrightarrow> (\<exists>kvs. r = JDict kvs)"
  by (cases r) (simp_all add: is_dict_def)

lemma parse_all_dicts:
  "\<forall>r \<in> set raw. \<exists>kvs. r = JDict kvs \<Longrightarrow> \<exists>ms. parse_all raw = Inr ms \<and> length ms = length raw"
proof (induction raw)
  case Nil
  then show ?case by simp
next
  case (Cons r raw)
  then obtain kvs ms where "r = JDict kvs" "parse_all raw = Inr ms" "length ms = length raw"
    by auto
  then show ?case by (simp add: parse_match_dict)
qed

lemma parse_all_length: "parse_all raw = Inr ms \<Longrightarrow> length ms = length raw"
proof (induction raw arbitrary: ms)
  case Nil
  then show ?case by simp
next
  case (Cons r raw)
  then show ?case
    by (cases "parse_match r"; cases "parse_all raw") auto
qed

lemma parse_all_expected:
  "\<forall>r \<in> set raw. expected_record r \<Longrightarrow>
     \<exists>ms. parse_all raw = Inr ms \<and> (\<forall>m \<in> set ms. score m \<noteq> None)"
proof (induction raw)
  case Nil
  then show ?case by simp
next
  case (Cons r raw)
  then obtain ms where ms: "parse_all raw = Inr ms" "\<forall>m \<in> set ms. score m \<noteq> None"
    by auto
  from Cons.prems have "expected_record r" by simp
  then obtain kvs where r: "r = JDict kvs"
    and "case map_of kvs ''confidence_score'' of None \<Rightarrow> True | Some v \<Rightarrow> num_of v \<noteq> None"
    by (auto simp: expected_record_def split: json.splits)
  then have "score \<lparr>file_path = (case map_of kvs ''file'' of None \<Rightarrow> JStr [] | Some v \<Rightarrow> v),
          confidence_score =
            (case map_of kvs ''confidence_score'' of None \<Rightarrow> JFloat float_0_8 | Some v \<Rightarrow> v),
          file_type = (case map_of kvs ''file_type'' of None \<Rightarrow> JStr ''unknown'' | Some v \<Rightarrow> v)\<rparr> \<noteq> None"
    by (auto simp: score_def split: option.splits)
  with ms r show ?case by (simp add: parse_match_dict)
qed

lemma insert_desc_numbers:
  "score x \<noteq> None \<Longrightarrow> \<forall>m \<in> set ys. score m \<noteq> None \<Longrightarrow>
     insert_desc x ys = Inr (insort_key neg_score x ys)"
proof (induction ys)
  case Nil
  then show ?case by simp
next
  case (Cons y ys)
  then obtain a b where ab: "num_of (confidence_score x) = Some a" "num_of (confidence_score y) = Some b"
    by (auto simp: score_def)
  have lt: "py_lt (confidence_score x) (confidence_score y) = Inr (a < b)"
    using ab by (rule py_lt_numbers)
  have le: "neg_score x \<le> neg_score y \<longleftrightarrow> \<not> a < b"
    using ab by (auto simp: neg_score_def score_def)
  from Cons have IH: "insert_desc x ys = Inr (insort_key neg_score x ys)" by simp
  show ?case by (simp add: lt IH le)
qed

lemma sort_matches_numbers:
  "\<forall>m \<in> set ms. score m \<noteq> None \<Longrightarrow> sort_matches ms = Inr (sort_key neg_score ms)"
  by (induction ms) (simp_all add: insert_desc_numbers)

lemma not_below_neg_score:
  "score a \<noteq> None \<Longrightarrow> score b \<noteq> None \<Longrightarrow> not_below a b = (neg_score a \<le> neg_score b)"
  by (auto simp: not_below_def neg_score_def)

lemma insert_desc_mset: "insert_desc x ys = Inr zs \<Longrightarrow> mset zs = add_mset x (mset ys)"
proof (induction ys arbitrary: zs)
  case Nil
  then show ?case by auto
next
  case (Cons y ys)
  show ?case
  proof (cases "py_lt (confidence_score x) (confidence_score y)")
    case (Inl e)
    with Cons.prems show ?thesis by simp
  next
    case (Inr smaller)
    show ?thesis
    proof (cases smaller)
      case False
      with Inr Cons.prems show ?thesis by auto
    next
      case True
      show ?thesis
      proof (cases "insert_desc x ys")
        case (Inl e)
        with Inr True Cons.prems show ?thesis by simp
      next
        case (Inr ws)
        then have "mset ws = add_mset x (mset ys)" by (rule Cons.IH)
        moreover have "zs = y # ws"
          using Cons.prems \<open>py_lt (confidence_score x) (confidence_score y) = Inr smaller\<close> True Inr
          by simp
        ultimately show ?thesis by simp
      qed
    qed
  qed
qed

lemma sort_matches_mset: "sort_matches ms = Inr zs \<Longrightarrow> mset zs = mset ms"
proof (induction ms arbitrary: zs)
  case Nil
  then show ?case by auto
next
  case (Cons m ms)
  show ?case
  proof (cases "sort_matches ms")
    case (Inl e)
    with Cons.prems show ?thesis by simp
  next
    case (Inr ws)
    then have "mset ws = mset ms" by (rule Cons.IH)
    moreover have "insert_desc m ws = Inr zs" using Cons.prems Inr by simp
    ultimately show ?thesis by (simp add: insert_desc_mset)
  qed
qed

section \<open>Computations and their events\<close>

lemma fst_bindc:
  "fst (bindc m f) = fst m @ (case snd m of Inl e \<Rightarrow> [] | Inr x \<Rightarrow> fst (f x))"
  by (cases m; cases "snd m") (simp_all split: prod.splits)

lemma snd_bindc:
  "snd (bindc m f) = (case snd m of Inl e \<Rightarrow> Inl e | Inr x \<Rightarrow> snd (f x))"
  by (cases m; cases "snd m") (simp_all split: prod.splits)

lemma fst_seqc:
  "fst (seqc m n) = fst m @ (case snd m of Inl e \<Rightarrow> [] | Inr x \<Rightarrow> fst n)"
  by (simp add: seqc_def fst_bindc)

lemma snd_seqc:
  "snd (seqc m n) = (case snd m of Inl e \<Rightarrow> Inl e | Inr x \<Rightarrow> snd n)"
  by (simp add: seqc_def snd_bindc)

lemma fst_try_except:
  "fst (try_except m c h) =
     fst m @ (case snd m of Inl e \<Rightarrow> if c e then fst (h e) else [] | Inr x \<Rightarrow> [])"
  by (cases m; cases "snd m") (simp_all split: prod.splits)

lemma snd_try_except:
  "snd (try_except m c h) =
     (case snd m of Inl e \<Rightarrow> if c e then snd (h e) else Inl e | Inr x \<Rightarrow> Inr x)"
  by (cases m; cases "snd m") (simp_all split: prod.splits)

lemma comp_basic:
  "fst (ret x) = []" "snd (ret x) = Inr x"
  "fst (raise e) = []" "snd (raise e) = Inl e"
  "fst (lift r) = []" "snd (lift r) = r"
  "fst (emit ev) = [ev]" "snd (emit ev) = Inr ()"
  "fst (call ev r) = [ev]" "snd (call ev r) = r"
  by (simp_all add: ret_def raise_def lift_def emit_def call_def)

lemmas comp_simps =
  fst_bindc snd_bindc fst_seqc snd_seqc fst_try_except snd_try_except comp_basic

lemma menu_lines_events: "ev \<in> set (fst (menu_lines i ms)) \<Longrightarrow> \<exists>t. ev = Echo t"
proof (induction ms arbitrary: i)
  case Nil
  then show ?case by (simp add: comp_simps)
next
  case (Cons m ms)
  then show ?case
    by (cases "fmt_2f (confidence_score m)") (auto simp: comp_simps)
qed

lemma num_of_number_of: "num_of x = Some r \<Longrightarrow> number_of x = Some (Finite r)"
  by (cases x) (auto split: if_splits)

lemma above_threshold_finite: "score m = Some s \<Longrightarrow> above_threshold m = (float_0_9 < s)"
  by (simp add: above_threshold_def score_def num_of_number_of)

lemma resolve_above:
  assumes "above_threshold m"
    and "os_path_join project_root (file_path m) = Inr path"
    and "cache_recent_file env path = Inr ()"
  shows "fst (resolve env project_root (m # ms)) =
           [Print [Lit ''High confidence match found: '', Lit path],
            Call_cache_recent_file path, Call_open_in_editor path]"
    and "snd (resolve env project_root (m # ms)) =
           (case open_in_editor env path of Inl e \<Rightarrow> Inl e | Inr u \<Rightarrow> Inr [Lit ''Opened file: '', Lit path])"
  using assms
  by (auto simp: resolve_def above_threshold_def py_gt_float_def comp_simps
           split: option.splits sum.splits)

lemma resolve_not_above:
  assumes "\<not> above_threshold m"
    and opened: "Call_open_in_editor p \<in> set (fst (resolve env project_root (m # ms)))"
  shows "list_ex is_prompt (fst (resolve env project_root (m # ms)))"
proof -
  have menu: "Call_open_in_editor p \<notin> set (fst (menu_lines 0 (take 5 (m # ms))))"
    using menu_lines_events by blast
  have "Prompt ''Which file to edit? (number)'' \<in> set (fst (resolve env project_root (m # ms)))"
  proof (cases "number_of (confidence_score m)")
    case None
    with opened show ?thesis
      by (simp add: resolve_def py_gt_float_def comp_simps)
  next
    case (Some a)
    with assms have le: "\<not> num_lt (Finite float_0_9) a" by (simp add: above_threshold_def)
    show ?thesis
      using opened Some le menu
      by (auto simp: resolve_def py_gt_float_def comp_simps
               simp del: menu_lines.simps take_Suc_Cons
               split: sum.splits)
  qed
  then have "\<exists>ev \<in> set (fst (resolve env project_root (m # ms))). is_prompt ev"
    by (rule bexI[rotated]) simp
  then show ?thesis by (simp add: list_ex_iff)
qed

lemma resolve_below_enters:
  assumes "score m = Some s" and "\<not> float_0_9 < s"
  shows "\<exists>rest. fst (resolve env project_root (m # ms)) = Echo [Lit ''Multiple matches found:''] # rest"
  using assms
  by (simp add: resolve_def score_def py_gt_float_def comp_simps num_of_number_of)

section \<open>The shape of a run of the command\<close>

lemma recent_lines_events: "ev \<in> set (fst (recent_lines i ps)) \<Longrightarrow> \<exists>t. ev = Echo t"
  by (induction ps arbitrary: i) (auto simp: comp_simps)

lemma snd_recent_lines: "snd (recent_lines i ps) = Inr ()"
  by (induction ps arbitrary: i) (auto simp: comp_simps)

lemma os_system_cases:
  "os_system c = (if CHR 0x00 \<in> set c then ([], Inl ValueError) else ([Call_os_system c], Inr ()))"
  by (simp add: os_system_def raise_def emit_def)

lemma open_recent_events:
  "ev \<in> set (fst (open_recent env files choice)) \<Longrightarrow> (\<exists>t. ev = Print t) \<or> (\<exists>c. ev = Call_os_system c)"
  by (auto simp: open_recent_def comp_simps os_system_cases split: sum.splits if_splits)

lemma recent_shortcut_events:
  assumes "ev \<in> set (fst (recent_shortcut env))"
  shows "\<not> is_matching_call ev \<and> (\<forall>p. ev \<noteq> Call_cache_recent_file p) \<and> (\<forall>p. ev \<noteq> Call_open_in_editor p)"
  using assms
  by (auto simp: recent_shortcut_def comp_simps snd_recent_lines
           dest!: recent_lines_events open_recent_events
           split: sum.splits if_splits)

lemma with_project_root_recent:
  "contains (str_lower d) ''recent'' \<Longrightarrow>
     with_project_root env ws pr d =
       (Print [Lit ''DEBUG: Project root set to: '', Val pr] #
        Print [Lit ''========== Starting edit_file with: '', Lit d] #
        fst (recent_shortcut env), snd (recent_shortcut env))"
  by (simp add: with_project_root_def prod_eq_iff comp_simps)

lemma with_project_root_match:
  "\<not> contains (str_lower d) ''recent'' \<Longrightarrow>
     with_project_root env ws pr d =
       (Print [Lit ''DEBUG: Project root set to: '', Val pr] #
        Print [Lit ''========== Starting edit_file with: '', Lit d] #
        fst (match_description env ws pr d), snd (match_description env ws pr d))"
  by (simp add: with_project_root_def prod_eq_iff comp_simps)

lemma workspace_not_found_eq:
  "workspace_not_found name =
     ([Print [Lit ''DEBUG: Current workspace '', Lit (quoted name), Lit '' not found in config'']],
      Inr [Lit ''Current workspace '', Lit (quoted name), Lit '' not found''])"
  by (simp add: workspace_not_found_def prod_eq_iff comp_simps)

lemma configured_workspace_cases:
  "(\<exists>e. configured_workspace env name d = ([Call_get_workspaces], Inl e)) \<or>
   configured_workspace env name d =
     ([Call_get_workspaces,
       Print [Lit ''DEBUG: Current workspace '', Lit (quoted name), Lit '' not found in config'']],
      Inr [Lit ''Current workspace '', Lit (quoted name), Lit '' not found'']) \<or>
   (\<exists>pr. configured_workspace env name d =
      (Call_get_workspaces # fst (with_project_root env (Some name) pr d),
       snd (with_project_root env (Some name) pr d)))"
proof (cases "get_workspaces env")
  case (Inl e)
  then show ?thesis
    by (simp add: configured_workspace_def prod_eq_iff comp_simps)
next
  case all: (Inr all_workspaces)
  show ?thesis
  proof (cases "py_getitem all_workspaces ''workspaces''")
    case (Inl e)
    with all show ?thesis
      by (simp add: configured_workspace_def prod_eq_iff comp_simps)
  next
    case wss: (Inr workspaces)
    show ?thesis
    proof (cases "py_get workspaces name")
      case (Inl e)
      with all wss show ?thesis
        by (simp add: configured_workspace_def prod_eq_iff comp_simps)
    next
      case cfg: (Inr workspace_config)
      show ?thesis
      proof (cases workspace_config)
        case None
        with all wss cfg show ?thesis
          by (simp add: configured_workspace_def prod_eq_iff comp_simps workspace_not_found_eq)
      next
        case (Some config)
        show ?thesis
        proof (cases "py_truthy config")
          case False
          with all wss cfg Some show ?thesis
            by (simp add: configured_workspace_def prod_eq_iff comp_simps workspace_not_found_eq)
        next
          case True
          show ?thesis
          proof (cases "py_getitem config ''path''")
            case (Inl e)
            with all wss cfg Some True show ?thesis
              by (simp add: configured_workspace_def prod_eq_iff comp_simps)
          next
            case (Inr pr)
            with all wss cfg Some True
            have "configured_workspace env name d =
                    (Call_get_workspaces # fst (with_project_root env (Some name) pr d),
                     snd (with_project_root env (Some name) pr d))"
              by (simp add: configured_workspace_def prod_eq_iff comp_simps)
            then show ?thesis by blast
          qed
        qed
      qed
    qed
  qed
qed

text \<open>Every run of the body is a prefix of context events, followed by nothing more
  (an exception or the not-found message) or by the run from the project root on.\<close>

lemma edit_file_body_cases:
  "\<exists>pre. list_all is_context_event pre \<and>
     ((\<exists>e. edit_file_body env d w = (pre, Inl e)) \<or>
      (\<exists>name. edit_file_body env d w =
          (pre, Inr [Lit ''Current workspace '', Lit (quoted name), Lit '' not found''])) \<or>
      (\<exists>ws pr. edit_file_body env d w =
          (pre @ fst (with_project_root env ws pr d), snd (with_project_root env ws pr d))))"
proof (cases "get_current_workspace env")
  case (Inl e)
  then show ?thesis
    by (intro exI[of _ "[Print [Lit ''DEBUG: Getting workspace config for '',
                        Lit [CHR 0x27], Val (of_opt w), Lit [CHR 0x27]], Call_get_current_workspace]"])
       (simp add: edit_file_body_def with_current_workspace_def prod_eq_iff comp_simps)
next
  case (Inr cur)
  let ?pre = "[Print [Lit ''DEBUG: Getting workspace config for '',
                        Lit [CHR 0x27], Val (of_opt w), Lit [CHR 0x27]], Call_get_current_workspace,
               Print [Lit ''DEBUG: Current workspace: '', Val (of_opt cur)]]"
  have fallback: ?thesis
    if "edit_file_body env d w =
          (?pre @ fst (with_project_root env cur (JStr (default_project_root env)) d),
           snd (with_project_root env cur (JStr (default_project_root env)) d))"
    using that by (intro exI[of _ ?pre]) auto
  show ?thesis
  proof (cases cur)
    case None
    with Inr show ?thesis
      by (intro fallback) (simp add: edit_file_body_def with_current_workspace_def prod_eq_iff comp_simps)
  next
    case (Some name)
    show ?thesis
    proof (cases "name = []")
      case True
      with Inr Some show ?thesis
        by (intro fallback) (simp add: edit_file_body_def with_current_workspace_def prod_eq_iff comp_simps)
    next
      case False
      have body: "edit_file_body env d w =
         (?pre @ fst (configured_workspace env name d), snd (configured_workspace env name d))"
        using Inr Some False by (simp add: edit_file_body_def with_current_workspace_def prod_eq_iff comp_simps)
      let ?pre2 = "?pre @ [Call_get_workspaces]"
      let ?nf = "Print [Lit ''DEBUG: Current workspace '', Lit (quoted name), Lit '' not found in config'']"
      from configured_workspace_cases[of env name d] show ?thesis
      proof (elim disjE exE)
        fix e assume "configured_workspace env name d = ([Call_get_workspaces], Inl e)"
        with body show ?thesis by (intro exI[of _ ?pre2]) auto
      next
        assume "configured_workspace env name d =
          ([Call_get_workspaces, ?nf], Inr [Lit ''Current workspace '', Lit (quoted name), Lit '' not found''])"
        with body show ?thesis by (intro exI[of _ "?pre2 @ [?nf]"]) auto
      next
        fix pr assume "configured_workspace env name d =
            (Call_get_workspaces # fst (with_project_root env (Some name) pr d),
             snd (with_project_root env (Some name) pr d))"
        with body show ?thesis by (intro exI[of _ ?pre2]) auto
      qed
    qed
  qed
qed

lemma edit_file_eq:
  "edit_file env d w =
     (Print [Lit ''DEBUG: Starting edit_file command''] # fst (edit_file_body env d w) @
        (case snd (edit_file_body env d w) of
           Inl e \<Rightarrow> if is_Exception e then [Print [Lit ''DEBUG: Error in edit_file: '', Exc e]] else []
         | Inr x \<Rightarrow> []),
      case snd (edit_file_body env d w) of
        Inl e \<Rightarrow> if is_Exception e then Inr [Lit ''Error: Could not edit file''] else Inl e
      | Inr x \<Rightarrow> Inr x)"
  by (auto simp: edit_file_def guarded_def prod_eq_iff comp_simps split: sum.splits)

section \<open>The workspace option, and runs on given inputs\<close>

lemmas eval_defs =
  edit_file_def edit_file_body_def with_current_workspace_def with_project_root_def match_description_def
  resolve_response_def resolve_def open_selected_def recent_shortcut_def open_recent_def
  configured_workspace_def workspace_not_found_def
  parse_matches_def parse_match_def py_get_default_def py_get_def py_getitem_def py_iter_def
  py_index_def py_int_def is_ascii_def parse_unsigned_def strip_def is_space_def is_digit_def
  digit_val_def guarded_def
  py_gt_float_def float_0_9_def float_0_8_def os_path_join_def posix_join_def os_system_def
  str_lower_def lower_char_def of_opt_def quoted_def
  ret_def raise_def lift_def emit_def call_def seqc_def
  is_Exception_def is_selection_error_def

lemma actions_simps:
  "actions [] = []"
  "actions (tr @ tr') = actions tr @ actions tr'"
  "actions (ev # tr) = (if is_print ev then actions tr else ev # actions tr)"
  by (simp_all add: actions_def)

lemma context_event_kinds:
  "is_context_event ev \<Longrightarrow> \<not> is_matching_call ev \<and> \<not> is_effect ev \<and> \<not> is_prompt ev"
  by (cases ev) simp_all

lemma edit_file_option:
  "edit_file env d w =
     (Print [Lit ''DEBUG: Starting edit_file command''] #
      Print [Lit ''DEBUG: Getting workspace config for '',
             Lit [CHR 0x27], Val (of_opt w), Lit [CHR 0x27]] #
      fst (with_current_workspace env d) @
        (case snd (with_current_workspace env d) of
           Inl e \<Rightarrow> if is_Exception e then [Print [Lit ''DEBUG: Error in edit_file: '', Exc e]] else []
         | Inr x \<Rightarrow> []),
      case snd (with_current_workspace env d) of
        Inl e \<Rightarrow> if is_Exception e then Inr [Lit ''Error: Could not edit file''] else Inl e
      | Inr x \<Rightarrow> Inr x)"
  by (simp add: edit_file_eq edit_file_body_def comp_simps)

section \<open>The recent-files shortcut\<close>

lemma try_open_recent_events:
  "fst (try_except (open_recent env files choice) is_selection_error
          (\<lambda>e. ret [Lit ''========== Invalid selection''])) = fst (open_recent env files choice)"
  by (simp add: comp_simps split: sum.splits)

lemma try_open_selected_events:
  "fst (try_except (open_selected env pr ms choice) is_selection_error
          (\<lambda>e. ret [Lit ''Invalid selection''])) = fst (open_selected env pr ms choice)"
  by (simp add: comp_simps split: sum.splits)




section \<open>A matching service that raises\<close>

lemma open_selected_events:
  "ev \<in> set (fst (open_selected env pr ms choice)) \<Longrightarrow>
     (\<exists>t. ev = Print t) \<or> (\<exists>p. ev = Call_cache_recent_file p) \<or> (\<exists>p. ev = Call_open_in_editor p)"
  by (auto simp: open_selected_def comp_simps split: sum.splits if_splits)

lemma resolve_events:
  assumes "ev \<in> set (fst (resolve env pr ms))"
  shows "\<not> is_matching_call ev \<and> (\<forall>c. ev \<noteq> Call_os_system c)"
proof (cases ms)
  case Nil
  with assms show ?thesis by (simp add: resolve_def comp_simps)
next
  case (Cons m rest)
  with assms show ?thesis
    by (auto simp: resolve_def comp_simps try_open_selected_events
             simp del: menu_lines.simps take_Suc_Cons
             dest!: menu_lines_events open_selected_events
             split: sum.splits if_splits)
qed

lemma resolve_response_events:
  assumes "ev \<in> set (fst (resolve_response env pr response))"
  shows "\<not> is_matching_call ev \<and> (\<forall>c. ev \<noteq> Call_os_system c)"
  using assms resolve_events[of ev env pr]
  by (auto simp: resolve_response_def comp_simps split: sum.splits)

lemma match_description_service_raises:
  assumes called: "Call_json_prompt p \<in> set (fst (match_description env ws pr d))"
    and raised: "json_prompt env p = Inl e"
  shows "snd (match_description env ws pr d) = Inl e \<and>
         \<not> list_ex is_effect (fst (match_description env ws pr d)) \<and>
         (\<exists>pre. fst (match_description env ws pr d) = pre @ [Call_json_prompt p])"
proof (cases "get_codebase_structure env pr")
  case (Inl e1)
  with called show ?thesis by (simp add: match_description_def comp_simps)
next
  case cs: (Inr codebase_structure)
  show ?thesis
  proof (cases "get_framework_specific_prompt env ws codebase_structure d")
    case (Inl e2)
    with called cs show ?thesis by (simp add: match_description_def comp_simps)
  next
    case pt: (Inr prompt)
    show ?thesis
    proof (cases "json_prompt env prompt")
      case (Inl e3)
      with called cs pt raised show ?thesis
        by (auto simp: match_description_def comp_simps)
    next
      case (Inr response)
      have "Call_json_prompt p \<notin> set (fst (resolve_response env pr response))"
        using resolve_response_events[of "Call_json_prompt p" env pr response] by auto
      with called cs pt Inr raised show ?thesis
        by (auto simp: match_description_def comp_simps)
    qed
  qed
qed

lemma with_project_root_service_raises:
  assumes called: "Call_json_prompt p \<in> set (fst (with_project_root env ws pr d))"
    and raised: "json_prompt env p = Inl e"
  shows "snd (with_project_root env ws pr d) = Inl e \<and>
         \<not> list_ex is_effect (fst (with_project_root env ws pr d)) \<and>
         (\<exists>pre. fst (with_project_root env ws pr d) = pre @ [Call_json_prompt p])"
proof (cases "contains (str_lower d) ''recent''")
  case True
  with called recent_shortcut_events[of "Call_json_prompt p" env] show ?thesis
    by (auto simp: with_project_root_recent)
next
  case False
  from called have "Call_json_prompt p \<in> set (fst (match_description env ws pr d))"
    by (simp add: with_project_root_match[OF False])
  from match_description_service_raises[OF this raised] show ?thesis
    by (auto simp: with_project_root_match[OF False] intro: exI[of _ "_ # _ # _"])
qed

section \<open>Cache update and editor launch\<close>

lemma ends_in_launch_prepend:
  assumes "\<not> list_ex is_effect pre'" and "ends_in_launch env acts"
  shows "ends_in_launch env (pre' @ acts)"
proof -
  from assms(2) obtain pre where pre: "\<not> list_ex is_effect pre"
    and shape: "acts = pre \<or>
         (\<exists>p e. acts = pre @ [Call_cache_recent_file p] \<and> cache_recent_file env p = Inl e) \<or>
         (\<exists>p. acts = pre @ [Call_cache_recent_file p, Call_open_in_editor p]) \<or>
         (\<exists>files f. acts = pre @ [Call_os_system (''code --goto '' @ f)] \<and>
            get_recent_files env = Inr files \<and> f \<in> set files)"
    unfolding ends_in_launch_def by blast
  have "\<not> list_ex is_effect (pre' @ pre)" using assms(1) pre by (auto simp: list_ex_iff)
  with shape show ?thesis
    unfolding ends_in_launch_def by (intro exI[of _ "pre' @ pre"]) auto
qed

lemma ends_in_launch_plain: "\<not> list_ex is_effect acts \<Longrightarrow> ends_in_launch env acts"
  unfolding ends_in_launch_def by blast

lemma actions_no_effect:
  "(\<And>ev. ev \<in> set tr \<Longrightarrow> \<not> is_effect ev) \<Longrightarrow> \<not> list_ex is_effect (actions tr)"
  by (auto simp: actions_def list_ex_iff)

lemma open_selected_ends:
  "ends_in_launch env (actions (fst (open_selected env pr ms choice)))"
proof (cases "py_int (int_max_str_digits env) (int_of_unicode env) choice")
  case (Inl e)
  then show ?thesis
    by (simp add: open_selected_def comp_simps actions_simps ends_in_launch_plain)
next
  case n: (Inr n)
  show ?thesis
  proof (cases "py_index ms (n - 1)")
    case (Inl e)
    with n show ?thesis
      by (simp add: open_selected_def comp_simps actions_simps ends_in_launch_plain)
  next
    case sel: (Inr selected)
    show ?thesis
    proof (cases "os_path_join pr (file_path selected)")
      case (Inl e)
      with n sel show ?thesis
        by (simp add: open_selected_def comp_simps actions_simps ends_in_launch_plain)
    next
      case path: (Inr path)
      show ?thesis
      proof (cases "cache_recent_file env path")
        case (Inl e)
        with n sel path
        have "actions (fst (open_selected env pr ms choice)) = [] @ [Call_cache_recent_file path]"
          by (simp add: open_selected_def comp_simps actions_simps)
        with Inl show ?thesis unfolding ends_in_launch_def
          by (intro exI[of _ "[]"]) auto
      next
        case (Inr u)
        with n sel path
        have "actions (fst (open_selected env pr ms choice)) =
                [] @ [Call_cache_recent_file path, Call_open_in_editor path]"
          by (simp add: open_selected_def comp_simps actions_simps split: sum.splits)
        then show ?thesis unfolding ends_in_launch_def
          by (intro exI[of _ "[]"]) auto
      qed
    qed
  qed
qed

lemma menu_lines_no_effect: "\<not> list_ex is_effect (actions (fst (menu_lines i ms)))"
  by (rule actions_no_effect) (auto dest: menu_lines_events)

lemma resolve_ends: "ends_in_launch env (actions (fst (resolve env pr ms)))"
proof (cases ms)
  case Nil
  then show ?thesis by (simp add: resolve_def comp_simps actions_simps ends_in_launch_plain)
next
  case (Cons m rest)
  show ?thesis
  proof (cases "py_gt_float (confidence_score m) float_0_9")
    case (Inl e)
    with Cons show ?thesis
      by (simp add: resolve_def comp_simps actions_simps ends_in_launch_plain)
  next
    case high: (Inr high)
    show ?thesis
    proof (cases high)
      case True
      show ?thesis
      proof (cases "os_path_join pr (file_path m)")
        case (Inl e)
        with Cons high True show ?thesis
          by (simp add: resolve_def comp_simps actions_simps ends_in_launch_plain)
      next
        case path: (Inr path)
        show ?thesis
        proof (cases "cache_recent_file env path")
          case (Inl e)
          with Cons high True path
          have "actions (fst (resolve env pr ms)) = [] @ [Call_cache_recent_file path]"
            by (simp add: resolve_def comp_simps actions_simps)
          with Inl show ?thesis unfolding ends_in_launch_def
            by (intro exI[of _ "[]"]) auto
        next
          case (Inr u)
          with Cons high True path
          have "actions (fst (resolve env pr ms)) =
                  [] @ [Call_cache_recent_file path, Call_open_in_editor path]"
            by (simp add: resolve_def comp_simps actions_simps split: sum.splits)
          then show ?thesis unfolding ends_in_launch_def
            by (intro exI[of _ "[]"]) auto
        qed
      qed
    next
      case False
      let ?menu = "menu_lines 0 (take 5 ms)"
      let ?q = "''Which file to edit? (number)''"
      have menu: "\<not> list_ex is_effect (Echo [Lit ''Multiple matches found:''] # actions (fst ?menu))"
        using menu_lines_no_effect[of 0 "take 5 ms"] by simp
      have tr: "actions (fst (resolve env pr ms)) =
          (Echo [Lit ''Multiple matches found:''] # actions (fst ?menu)) @
          (case snd ?menu of
             Inl e \<Rightarrow> []
           | Inr u \<Rightarrow> Prompt ?q #
               (case typer_prompt env ?q of
                  Inl e \<Rightarrow> []
                | Inr choice \<Rightarrow> actions (fst (open_selected env pr ms choice))))"
        using Cons high False
        by (simp add: resolve_def comp_simps actions_simps try_open_selected_events
              del: menu_lines.simps take_Suc_Cons split: sum.splits)
      have "ends_in_launch env
          (case snd ?menu of
             Inl e \<Rightarrow> []
           | Inr u \<Rightarrow> Prompt ?q #
               (case typer_prompt env ?q of
                  Inl e \<Rightarrow> []
                | Inr choice \<Rightarrow> actions (fst (open_selected env pr ms choice))))"
      proof (cases "snd ?menu")
        case (Inl e)
        then show ?thesis by (simp add: ends_in_launch_plain)
      next
        case (Inr u)
        show ?thesis
        proof (cases "typer_prompt env ?q")
          case (Inl e)
          with Inr show ?thesis by (simp add: ends_in_launch_plain)
        next
          case choice: (Inr choice)
          have "ends_in_launch env ([Prompt ?q] @ actions (fst (open_selected env pr ms choice)))"
            by (rule ends_in_launch_prepend) (simp_all add: open_selected_ends)
          with Inr choice show ?thesis by simp
        qed
      qed
      with menu show ?thesis unfolding tr by (rule ends_in_launch_prepend)
    qed
  qed
qed

lemma resolve_response_ends:
  "ends_in_launch env (actions (fst (resolve_response env pr response)))"
  using resolve_ends[of env pr]
  by (auto simp: resolve_response_def comp_simps actions_simps ends_in_launch_plain
           split: sum.splits)

lemma match_description_ends:
  "ends_in_launch env (actions (fst (match_description env ws pr d)))"
proof (cases "get_codebase_structure env pr")
  case (Inl e)
  then show ?thesis
    by (simp add: match_description_def comp_simps actions_simps ends_in_launch_plain)
next
  case cs: (Inr codebase_structure)
  show ?thesis
  proof (cases "get_framework_specific_prompt env ws codebase_structure d")
    case (Inl e)
    with cs show ?thesis
      by (simp add: match_description_def comp_simps actions_simps ends_in_launch_plain)
  next
    case pt: (Inr prompt)
    show ?thesis
    proof (cases "json_prompt env prompt")
      case (Inl e)
      with cs pt show ?thesis
        by (simp add: match_description_def comp_simps actions_simps ends_in_launch_plain)
    next
      case (Inr response)
      have "ends_in_launch env
              ([Call_get_codebase_structure pr,
                Call_get_framework_specific_prompt ws codebase_structure d,
                Call_json_prompt prompt] @ actions (fst (resolve_response env pr response)))"
        by (rule ends_in_launch_prepend) (simp_all add: resolve_response_ends)
      with cs pt Inr show ?thesis
        by (simp add: match_description_def comp_simps actions_simps)
    qed
  qed
qed

lemma match_description_events:
  assumes "ev \<in> set (fst (match_description env ws pr d))"
  shows "\<forall>c. ev \<noteq> Call_os_system c"
  using assms resolve_response_events[of ev env pr]
  by (auto simp: match_description_def comp_simps split: sum.splits)

lemma py_index_member: "py_index xs i = Inr x \<Longrightarrow> x \<in> set xs"
  by (auto simp: py_index_def split: if_splits)

lemma recent_lines_no_effect: "\<not> list_ex is_effect (actions (fst (recent_lines i ps)))"
  by (rule actions_no_effect) (auto dest: recent_lines_events)

lemma open_recent_ends:
  "(\<exists>f. f \<in> set files \<and>
        actions (fst (open_recent env files choice)) = [Call_os_system (''code --goto '' @ f)]) \<or>
   actions (fst (open_recent env files choice)) = []"
proof (cases "py_int (int_max_str_digits env) (int_of_unicode env) choice")
  case (Inl e)
  then show ?thesis by (simp add: open_recent_def comp_simps actions_simps)
next
  case n: (Inr n)
  show ?thesis
  proof (cases "py_index files (n - 1)")
    case (Inl e)
    with n show ?thesis by (simp add: open_recent_def comp_simps actions_simps)
  next
    case (Inr selected)
    then have "selected \<in> set files" by (rule py_index_member)
    with n Inr show ?thesis
      by (simp add: open_recent_def comp_simps actions_simps os_system_cases)
  qed
qed

lemma ends_in_launch_system:
  assumes "\<not> list_ex is_effect pre" and "get_recent_files env = Inr files" and "f \<in> set files"
  shows "ends_in_launch env (pre @ [Call_os_system (''code --goto '' @ f)])"
  unfolding ends_in_launch_def using assms by blast

lemma recent_shortcut_ends: "ends_in_launch env (actions (fst (recent_shortcut env)))"
proof (cases "get_recent_files env")
  case (Inl e)
  then show ?thesis
    by (simp add: recent_shortcut_def comp_simps actions_simps ends_in_launch_plain)
next
  case files: (Inr files)
  show ?thesis
  proof (cases "files = []")
    case True
    with files show ?thesis
      by (simp add: recent_shortcut_def comp_simps actions_simps ends_in_launch_plain)
  next
    case False
    let ?q = "''Which file to open? (number)''"
    let ?pre = "Call_get_recent_files # Echo [Lit ''Recent files:''] #
                actions (fst (recent_lines 0 (take 5 files))) @ [Prompt ?q]"
    have pre: "\<not> list_ex is_effect ?pre"
      using recent_lines_no_effect[of 0 "take 5 files"] by (simp add: list_ex_iff)
    show ?thesis
    proof (cases "typer_prompt env ?q")
      case (Inl e)
      with files False have "actions (fst (recent_shortcut env)) = ?pre"
        by (simp add: recent_shortcut_def comp_simps actions_simps snd_recent_lines)
      with ends_in_launch_plain[OF pre, of env] show ?thesis by simp
    next
      case (Inr choice)
      with files False have tr: "actions (fst (recent_shortcut env)) =
          ?pre @ actions (fst (open_recent env files choice))"
        by (simp add: recent_shortcut_def comp_simps actions_simps snd_recent_lines
              split: sum.splits)
      from open_recent_ends[of files env choice] show ?thesis
      proof (elim disjE exE conjE)
        fix f assume "f \<in> set files"
          and "actions (fst (open_recent env files choice)) = [Call_os_system (''code --goto '' @ f)]"
        with tr ends_in_launch_system[OF pre files, of f] show ?thesis by simp
      next
        assume "actions (fst (open_recent env files choice)) = []"
        with tr ends_in_launch_plain[OF pre, of env] show ?thesis by simp
      qed
    qed
  qed
qed

lemma with_project_root_ends:
  "ends_in_launch env (actions (fst (with_project_root env ws pr d)))"
  using recent_shortcut_ends[of env] match_description_ends[of env ws pr d]
  by (cases "contains (str_lower d) ''recent''")
     (simp_all add: with_project_root_recent with_project_root_match actions_simps)

lemma actions_context: "list_all is_context_event pre \<Longrightarrow> \<not> list_ex is_effect (actions pre)"
  by (rule actions_no_effect) (auto simp: list_all_iff dest: context_event_kinds)

lemma edit_file_actions: "actions (fst (edit_file env d w)) = actions (fst (edit_file_body env d w))"
  by (simp add: edit_file_eq actions_simps split: sum.splits)

lemma edit_file_ends: "ends_in_launch env (actions (fst (edit_file env d w)))"
proof -
  obtain pre where pre: "list_all is_context_event pre"
    and cases: "(\<exists>e. edit_file_body env d w = (pre, Inl e)) \<or>
      (\<exists>name. edit_file_body env d w =
          (pre, Inr [Lit ''Current workspace '', Lit (quoted name), Lit '' not found''])) \<or>
      (\<exists>ws pr. edit_file_body env d w =
          (pre @ fst (with_project_root env ws pr d), snd (with_project_root env ws pr d)))"
    using edit_file_body_cases[of env d w] by blast
  have p: "\<not> list_ex is_effect (actions pre)" using pre by (rule actions_context)
  from cases show ?thesis
  proof (elim disjE exE)
    fix ws pr
    assume "edit_file_body env d w =
          (pre @ fst (with_project_root env ws pr d), snd (with_project_root env ws pr d))"
    then have "actions (fst (edit_file env d w)) =
                 actions pre @ actions (fst (with_project_root env ws pr d))"
      by (simp add: edit_file_actions actions_simps)
    with ends_in_launch_prepend[OF p with_project_root_ends[of env ws pr d]] show ?thesis
      by simp
  qed (use p in \<open>simp_all add: edit_file_actions ends_in_launch_plain\<close>)
qed

lemma edit_file_recent_events:
  assumes "contains (str_lower d) ''recent''" and "ev \<in> set (fst (edit_file env d w))"
  shows "(\<forall>p. ev \<noteq> Call_cache_recent_file p) \<and> (\<forall>p. ev \<noteq> Call_open_in_editor p)"
proof -
  obtain pre where pre: "list_all is_context_event pre"
    and cases: "(\<exists>e. edit_file_body env d w = (pre, Inl e)) \<or>
      (\<exists>name. edit_file_body env d w =
          (pre, Inr [Lit ''Current workspace '', Lit (quoted name), Lit '' not found''])) \<or>
      (\<exists>ws pr. edit_file_body env d w =
          (pre @ fst (with_project_root env ws pr d), snd (with_project_root env ws pr d)))"
    using edit_file_body_cases[of env d w] by blast
  have p: "\<not> is_effect x" if "x \<in> set pre" for x
    using that pre context_event_kinds by (auto simp: list_all_iff)
  have rs: "(\<forall>p. x \<noteq> Call_cache_recent_file p) \<and> (\<forall>p. x \<noteq> Call_open_in_editor p)"
    if "x \<in> set (fst (with_project_root env ws pr d))" for x ws pr
    using that recent_shortcut_events[of x env]
    by (auto simp: with_project_root_recent[OF assms(1)])
  have "(\<forall>p. x \<noteq> Call_cache_recent_file p) \<and> (\<forall>p. x \<noteq> Call_open_in_editor p)"
    if "x \<in> set (fst (edit_file_body env d w))" for x
    using cases that p rs by fastforce
  with assms(2) show ?thesis
    by (auto simp: edit_file_eq split: sum.splits if_splits)
qed

lemma edit_file_match_events:
  assumes "\<not> contains (str_lower d) ''recent''" and "ev \<in> set (fst (edit_file env d w))"
  shows "\<forall>c. ev \<noteq> Call_os_system c"
proof -
  obtain pre where pre: "list_all is_context_event pre"
    and cases: "(\<exists>e. edit_file_body env d w = (pre, Inl e)) \<or>
      (\<exists>name. edit_file_body env d w =
          (pre, Inr [Lit ''Current workspace '', Lit (quoted name), Lit '' not found''])) \<or>
      (\<exists>ws pr. edit_file_body env d w =
          (pre @ fst (with_project_root env ws pr d), snd (with_project_root env ws pr d)))"
    using edit_file_body_cases[of env d w] by blast
  have p: "\<not> is_effect x" if "x \<in> set pre" for x
    using that pre context_event_kinds by (auto simp: list_all_iff)
  have rs: "\<forall>c. x \<noteq> Call_os_system c"
    if "x \<in> set (fst (with_project_root env ws pr d))" for x ws pr
    using that match_description_events[of x env ws pr d]
    by (auto simp: with_project_root_match[OF assms(1)])
  have "\<forall>c. x \<noteq> Call_os_system c" if "x \<in> set (fst (edit_file_body env d w))" for x
    using cases that p rs by fastforce
  with assms(2) show ?thesis
    by (auto simp: edit_file_eq split: sum.splits if_splits)
qed

section \<open>Replies that are rejected\<close>

lemma py_index_beyond:
  "int (length xs) < n \<or> n \<le> - int (length xs) \<Longrightarrow> py_index xs (n - 1) = Inl IndexError"
  by (auto simp: py_index_def)

text \<open>Where the selection handlers do reject a reply: one that is not an integer, and
  one that lies beyond the list in either direction.\<close>

lemma selection_rejected:
  assumes "py_int (int_max_str_digits env) (int_of_unicode env) choice = Inl ValueError \<or>
           (\<exists>n. py_int (int_max_str_digits env) (int_of_unicode env) choice = Inr n \<and> (int (length ms) < n \<or> n \<le> - int (length ms)))"
  shows "try_except (open_selected env pr ms choice) is_selection_error
           (\<lambda>e. ret [Lit ''Invalid selection'']) = ([], Inr [Lit ''Invalid selection''])"
  using assms
  by (auto simp: open_selected_def prod_eq_iff comp_simps is_selection_error_def py_index_beyond)

lemma recent_selection_rejected:
  assumes "py_int (int_max_str_digits env) (int_of_unicode env) choice = Inl ValueError \<or>
           (\<exists>n. py_int (int_max_str_digits env) (int_of_unicode env) choice = Inr n \<and> (int (length files) < n \<or> n \<le> - int (length files)))"
  shows "try_except (open_recent env files choice) is_selection_error
           (\<lambda>e. ret [Lit ''========== Invalid selection'']) =
         ([], Inr [Lit ''========== Invalid selection''])"
  using assms
  by (auto simp: open_recent_def prod_eq_iff comp_simps is_selection_error_def py_index_beyond)

section \<open>Ranking in general, and runs of the shortcut\<close>

lemma py_lt_number:
  "number_of a = Some x \<Longrightarrow> number_of b = Some y \<Longrightarrow> py_lt a b = Inr (num_lt x y)"
  by (cases a; cases b; simp)

lemma insert_desc_total:
  "number_of (confidence_score x) \<noteq> None \<Longrightarrow>
   \<forall>m \<in> set ys. number_of (confidence_score m) \<noteq> None \<Longrightarrow>
     \<exists>zs. insert_desc x ys = Inr zs"
proof (induction ys)
  case Nil
  then show ?case by simp
next
  case (Cons y ys)
  then obtain a b where "number_of (confidence_score x) = Some a"
      "number_of (confidence_score y) = Some b"
    by auto
  then have lt: "py_lt (confidence_score x) (confidence_score y) = Inr (num_lt a b)"
    by (rule py_lt_number)
  from Cons obtain zs where "insert_desc x ys = Inr zs" by auto
  with lt show ?case by simp
qed

lemma sort_matches_total:
  "\<forall>m \<in> set ms. number_of (confidence_score m) \<noteq> None \<Longrightarrow> \<exists>zs. sort_matches ms = Inr zs"
proof (induction ms)
  case Nil
  then show ?case by simp
next
  case (Cons m ms)
  then obtain ws where ws: "sort_matches ms = Inr ws" by auto
  then have "mset ws = mset ms" by (rule sort_matches_mset)
  then have "set ws = set ms" by (rule mset_eq_setD)
  with Cons.prems have "\<exists>zs. insert_desc m ws = Inr zs"
    by (intro insert_desc_total) auto
  with ws show ?case by simp
qed

lemma parse_all_numeric:
  "\<forall>r \<in> set raw. numeric_record r \<Longrightarrow>
     \<exists>ms. parse_all raw = Inr ms \<and> (\<forall>m \<in> set ms. number_of (confidence_score m) \<noteq> None)"
proof (induction raw)
  case Nil
  then show ?case by simp
next
  case (Cons r raw)
  then obtain ms where ms: "parse_all raw = Inr ms"
      "\<forall>m \<in> set ms. number_of (confidence_score m) \<noteq> None"
    by auto
  from Cons.prems have "numeric_record r" by simp
  then obtain kvs where r: "r = JDict kvs"
    and "case map_of kvs ''confidence_score'' of None \<Rightarrow> True | Some v \<Rightarrow> number_of v \<noteq> None"
    by (auto simp: numeric_record_def split: json.splits)
  then have "number_of (case map_of kvs ''confidence_score'' of
                          None \<Rightarrow> JFloat float_0_8 | Some v \<Rightarrow> v) \<noteq> None"
    by (auto split: option.splits)
  with ms r show ?case by (simp add: parse_match_dict)
qed

lemma rank_returns_permutation:
  assumes "rank raw = Inr ranked"
  shows "\<exists>parsed. parse_all raw = Inr parsed \<and> length ranked = length raw \<and>
                  mset ranked = mset parsed"
proof (cases "parse_all raw")
  case (Inl e)
  with assms show ?thesis by (simp add: rank_def)
next
  case (Inr parsed)
  with assms have "sort_matches parsed = Inr ranked" by (simp add: rank_def)
  then have m: "mset ranked = mset parsed" by (rule sort_matches_mset)
  then have "length ranked = length parsed" by (rule mset_eq_length)
  with Inr m show ?thesis by (simp add: parse_all_length)
qed

lemma guarded_eq:
  "guarded m =
     (fst m @ (case snd m of
                 Inl e \<Rightarrow> if is_Exception e
                          then [Print [Lit ''DEBUG: Error in edit_file: '', Exc e]] else []
               | Inr x \<Rightarrow> []),
      case snd m of
        Inl e \<Rightarrow> if is_Exception e then Inr [Lit ''Error: Could not edit file''] else Inl e
      | Inr x \<Rightarrow> Inr x)"
  by (auto simp: guarded_def prod_eq_iff comp_simps split: sum.splits)

lemma guarded_prefix: "guarded (pre @ fst m, snd m) = (pre @ fst (guarded m), snd (guarded m))"
  by (simp add: guarded_eq)





text \<open>
  Leaving the debug prints aside, every run ends in one of four ways: with no cache update
  and no launch; with a cache update that raised; with a cache update directly followed by
  \<^verbatim>\<open>open_in_editor\<close> on the same path; or, in the recent-files shortcut, with the
  shell command on a path of the list that the cache returned.
\<close>

lemma launch_follows_cache_update:
  "(\<exists>pre. \<not> list_ex is_effect pre \<and>
      (actions (fst (edit_file env d w)) = pre \<or>
       (\<exists>p e. actions (fst (edit_file env d w)) = pre @ [Call_cache_recent_file p] \<and>
              cache_recent_file env p = Inl e) \<or>
       (\<exists>p. actions (fst (edit_file env d w)) =
              pre @ [Call_cache_recent_file p, Call_open_in_editor p]) \<or>
       (\<exists>files f. actions (fst (edit_file env d w)) =
              pre @ [Call_os_system (''code --goto '' @ f)] \<and>
              get_recent_files env = Inr files \<and> f \<in> set files))) \<and>
   (contains (str_lower d) ''recent'' \<longrightarrow>
      (\<forall>p. Call_cache_recent_file p \<notin> set (fst (edit_file env d w))) \<and>
      (\<forall>p. Call_open_in_editor p \<notin> set (fst (edit_file env d w)))) \<and>
   (\<not> contains (str_lower d) ''recent'' \<longrightarrow>
      (\<forall>c. Call_os_system c \<notin> set (fst (edit_file env d w))))"
proof (intro conjI impI)
  show "\<exists>pre. \<not> list_ex is_effect pre \<and>
      (actions (fst (edit_file env d w)) = pre \<or>
       (\<exists>p e. actions (fst (edit_file env d w)) = pre @ [Call_cache_recent_file p] \<and>
              cache_recent_file env p = Inl e) \<or>
       (\<exists>p. actions (fst (edit_file env d w)) =
              pre @ [Call_cache_recent_file p, Call_open_in_editor p]) \<or>
       (\<exists>files f. actions (fst (edit_file env d w)) =
              pre @ [Call_os_system (''code --goto '' @ f)] \<and>
              get_recent_files env = Inr files \<and> f \<in> set files))"
    using edit_file_ends[of env d w] unfolding ends_in_launch_def .
next
  assume r: "contains (str_lower d) ''recent''"
  show "\<forall>p. Call_cache_recent_file p \<notin> set (fst (edit_file env d w))"
    using edit_file_recent_events[OF r, of _ env w] by blast
  show "\<forall>p. Call_open_in_editor p \<notin> set (fst (edit_file env d w))"
    using edit_file_recent_events[OF r, of _ env w] by blast
next
  assume r: "\<not> contains (str_lower d) ''recent''"
  show "\<forall>c. Call_os_system c \<notin> set (fst (edit_file env d w))"
    using edit_file_match_events[OF r, of _ env w] by blast
qed

text \<open>
  C1. Given a non-empty list of candidates whose first path can be joined to the project
  root, and a cache update that succeeds, the editor is launched on the first candidate
  without asking the user exactly when its confidence score is strictly greater than
  \<^verbatim>\<open>0.9\<close>; then nothing else happens but the debug line, the cache update and the
  launch. A first score of exactly \<^verbatim>\<open>0.9\<close> does not open the file unasked and starts
  the list of choices.
\<close>

theorem auto_open_iff_above_threshold:
  assumes "os_path_join project_root (file_path m) = Inr path"
    and "cache_recent_file env path = Inr ()"
  shows "(auto_opened path (resolve env project_root (m # ms)) \<longleftrightarrow> above_threshold m) \<and>
         (above_threshold m \<longrightarrow>
            fst (resolve env project_root (m # ms)) =
              [Print [Lit ''High confidence match found: '', Lit path],
               Call_cache_recent_file path, Call_open_in_editor path]) \<and>
         (score m = Some float_0_9 \<longrightarrow>
            \<not> auto_opened path (resolve env project_root (m # ms)) \<and>
            (\<exists>rest. fst (resolve env project_root (m # ms)) =
               Echo [Lit ''Multiple matches found:''] # rest))"
proof -
  have a: "auto_opened path (resolve env project_root (m # ms))" if "above_threshold m"
    using resolve_above(1)[OF that assms] by (simp add: auto_opened_def)
  have b: "\<not> auto_opened path (resolve env project_root (m # ms))" if "\<not> above_threshold m"
    using resolve_not_above[OF that] by (auto simp: auto_opened_def)
  have c: "\<not> above_threshold m" if "score m = Some float_0_9"
    using that by (simp add: above_threshold_finite)
  show ?thesis
    using a b c resolve_above(1)[OF _ assms] resolve_below_enters[of m float_0_9]
    by blast
qed

theorem auto_open_iff_above_threshold_witness:
  "os_path_join (JStr ''/proj'') (file_path example_match) = Inr ''/proj/a.py'' \<and>
   cache_recent_file example_env ''/proj/a.py'' = Inr () \<and>
   above_threshold example_match \<and>
   auto_opened ''/proj/a.py'' (resolve example_env (JStr ''/proj'') [example_match]) \<and>
   fst (resolve example_env (JStr ''/proj'') [example_match]) =
     [Print [Lit ''High confidence match found: '', Lit ''/proj/a.py''],
      Call_cache_recent_file ''/proj/a.py'', Call_open_in_editor ''/proj/a.py'']"
proof -
  have j: "os_path_join (JStr ''/proj'') (file_path example_match) = Inr ''/proj/a.py''"
    by (simp add: os_path_join_def posix_join_def example_match_def)
  have c: "cache_recent_file example_env ''/proj/a.py'' = Inr ()"
    by (simp add: example_env_def)
  have a: "above_threshold example_match"
    by (simp add: above_threshold_def example_match_def float_0_9_def)
  show ?thesis
    using j c a auto_open_iff_above_threshold [OF j c, of "[]"] by simp
qed

text \<open>
  C2, as the claim states it, fails: it speaks of every raw result list, and on a list
  whose first record has \<^verbatim>\<open>null\<close> for its score and whose second has a number the
  sort raises, so that there is no ranked list.
\<close>

theorem none_score_counterexample:
  "rank none_score_results = Inl TypeError"
  by (simp add: none_score_results_def rank_def parse_match_dict)

text \<open>
  C2, amended. Whenever the parse-and-rank step returns a list, the list has the length of
  the input and is a permutation of the parsed records. When every record is a dict whose
  confidence score is a finite number or absent, the step does return, and its list is
  moreover sorted by confidence score from the highest to the lowest, with records of
  equal score in the order of the input.
\<close>

theorem rank_sorted_stable_permutation:
  "(rank raw = Inr returned \<longrightarrow>
      (\<exists>parsed. parse_all raw = Inr parsed \<and> length returned = length raw \<and>
                mset returned = mset parsed)) \<and>
   (list_all expected_record raw \<longrightarrow>
      (\<exists>parsed ranked.
         parse_all raw = Inr parsed \<and> rank raw = Inr ranked \<and>
         length ranked = length raw \<and>
         mset ranked = mset parsed \<and>
         sorted_wrt not_below ranked \<and>
         (\<forall>k. filter (\<lambda>m. score m = k) ranked = filter (\<lambda>m. score m = k) parsed)))"
proof (intro conjI impI)
  assume "rank raw = Inr returned"
  then show "\<exists>parsed. parse_all raw = Inr parsed \<and> length returned = length raw \<and>
                       mset returned = mset parsed"
    by (rule rank_returns_permutation)
next
  assume assms: "list_all expected_record raw"
  show "\<exists>parsed ranked.
         parse_all raw = Inr parsed \<and> rank raw = Inr ranked \<and>
         length ranked = length raw \<and>
         mset ranked = mset parsed \<and>
         sorted_wrt not_below ranked \<and>
         (\<forall>k. filter (\<lambda>m. score m = k) ranked = filter (\<lambda>m. score m = k) parsed)"
  proof -
    from assms have "\<forall>r \<in> set raw. expected_record r"
      by (simp add: list_all_iff)
    then obtain parsed where p: "parse_all raw = Inr parsed" "\<forall>m \<in> set parsed. score m \<noteq> None"
      using parse_all_expected by blast
    let ?ranked = "sort_key neg_score parsed"
    have r: "rank raw = Inr ?ranked"
      using p by (simp add: rank_def sort_matches_numbers)
    have len: "length ?ranked = length raw"
      using p(1) by (simp add: parse_all_length)
    have "sorted (map neg_score ?ranked)" by (rule sorted_sort_key)
    then have "sorted_wrt (\<lambda>a b. neg_score a \<le> neg_score b) ?ranked"
      by (simp add: sorted_map)
    then have srt: "sorted_wrt not_below ?ranked"
      by (rule sorted_wrt_mono_rel[rotated]) (use p(2) in \<open>simp add: not_below_neg_score\<close>)
    have stab: "filter (\<lambda>m. score m = k) ?ranked = filter (\<lambda>m. score m = k) parsed" for k
    proof -
      have "filter (\<lambda>m. neg_score m = j) ?ranked = filter (\<lambda>m. neg_score m = j) parsed" for j
        by (rule sort_key_stable)
      then have neg: "filter (\<lambda>m. neg_score m = j) ?ranked = filter (\<lambda>m. neg_score m = j) parsed" for j .
      show ?thesis
      proof (cases k)
        case None
        have "filter (\<lambda>m. score m = None) ?ranked = []" "filter (\<lambda>m. score m = None) parsed = []"
          using p(2) by (simp_all add: filter_empty_conv)
        with None show ?thesis by simp
      next
        case (Some a)
        have eq: "(score m = Some a) = (neg_score m = - a)" if "m \<in> set parsed" for m
          using that p(2) by (auto simp: neg_score_def)
        have "filter (\<lambda>m. score m = Some a) ?ranked = filter (\<lambda>m. neg_score m = - a) ?ranked"
          by (rule filter_cong) (simp_all add: eq)
        moreover have "filter (\<lambda>m. score m = Some a) parsed = filter (\<lambda>m. neg_score m = - a) parsed"
          by (rule filter_cong) (simp_all add: eq)
        ultimately show ?thesis using neg[of "- a"] Some by simp
      qed
    qed
    show ?thesis using p(1) r len srt stab by auto
  qed
qed

theorem rank_sorted_stable_permutation_witness:
  "list_all expected_record example_results \<and>
   (\<exists>parsed ranked.
      parse_all example_results = Inr parsed \<and> rank example_results = Inr ranked \<and>
      length ranked = length example_results \<and>
      mset ranked = mset parsed \<and>
      sorted_wrt not_below ranked \<and>
      (\<forall>k. filter (\<lambda>m. score m = k) ranked = filter (\<lambda>m. score m = k) parsed))"
proof -
  have h: "list_all expected_record example_results"
    by (simp add: example_results_def expected_record_def)
  show ?thesis using h rank_sorted_stable_permutation [of example_results] by blast
qed

text \<open>
  C3 names the reply \<^verbatim>\<open>0\<close> and negative replies among those that must give
  \<^verbatim>\<open>Invalid selection\<close>. The code subtracts one and subscripts, and a negative
  subscript counts from the end: with two candidates of score \<^verbatim>\<open>0.5\<close> the reply
  \<^verbatim>\<open>0\<close> updates the cache and launches the editor on the last candidate, and in the
  recent-files shortcut it opens the last recent file.
\<close>

theorem zero_selects_last_candidate:
  "snd (edit_file zero_reply_env ''login page'' None) =
     Inr [Lit ''Opened '', Val (JStr ''module''), Lit '' file: '', Lit ''/proj/b.py''] \<and>
   filter is_effect (fst (edit_file zero_reply_env ''login page'' None)) =
     [Call_cache_recent_file ''/proj/b.py'', Call_open_in_editor ''/proj/b.py''] \<and>
   snd (edit_file zero_reply_env ''recent'' None) =
     Inr [Lit ''========== Opened recent file: '', Lit ''y.py''] \<and>
   filter is_effect (fst (edit_file zero_reply_env ''recent'' None)) =
     [Call_os_system ''code --goto y.py'']"
  by (simp add: zero_reply_env_def example_env_def eval_defs)

text \<open>
  C4. In every run in which the matching service is called and raises an exception (of a
  class derived from \<^verbatim>\<open>Exception\<close>, which is what the outer handler catches), the
  command returns the one message \<^verbatim>\<open>Error: Could not edit file\<close>; the run ends
  with that call and the handler's debug line, so the recent-files cache is not updated
  and no editor is launched, and no exception reaches the caller.
\<close>

theorem service_error_reported:
  assumes called: "Call_json_prompt p \<in> set (fst (edit_file env d w))"
    and raised: "json_prompt env p = Inl e"
    and exc: "is_Exception e"
  shows "snd (edit_file env d w) = Inr [Lit ''Error: Could not edit file''] \<and>
         \<not> list_ex is_effect (fst (edit_file env d w)) \<and>
         (\<exists>pre. fst (edit_file env d w) =
            pre @ [Call_json_prompt p, Print [Lit ''DEBUG: Error in edit_file: '', Exc e]])"
proof -
  obtain pre where pre: "list_all is_context_event pre"
    and cases: "(\<exists>e. edit_file_body env d w = (pre, Inl e)) \<or>
      (\<exists>name. edit_file_body env d w =
          (pre, Inr [Lit ''Current workspace '', Lit (quoted name), Lit '' not found''])) \<or>
      (\<exists>ws pr. edit_file_body env d w =
          (pre @ fst (with_project_root env ws pr d), snd (with_project_root env ws pr d)))"
    using edit_file_body_cases[of env d w] by blast
  have npre: "\<not> is_matching_call ev \<and> \<not> is_effect ev" if "ev \<in> set pre" for ev
    using that pre context_event_kinds by (auto simp: list_all_iff)
  then have notin: "Call_json_prompt p \<notin> set pre" by fastforce
  from called have body: "Call_json_prompt p \<in> set (fst (edit_file_body env d w))"
    by (auto simp: edit_file_eq split: sum.splits if_splits)
  with cases notin obtain ws pr where
    eq: "edit_file_body env d w =
          (pre @ fst (with_project_root env ws pr d), snd (with_project_root env ws pr d))"
    by auto
  with body notin have "Call_json_prompt p \<in> set (fst (with_project_root env ws pr d))"
    by simp
  from with_project_root_service_raises[OF this raised]
  obtain pre' where inner: "snd (with_project_root env ws pr d) = Inl e"
      "\<not> list_ex is_effect (fst (with_project_root env ws pr d))"
      "fst (with_project_root env ws pr d) = pre' @ [Call_json_prompt p]"
    by blast
  have "fst (edit_file env d w) =
          (Print [Lit ''DEBUG: Starting edit_file command''] # pre @ pre') @
          [Call_json_prompt p, Print [Lit ''DEBUG: Error in edit_file: '', Exc e]]"
    using eq inner exc by (simp add: edit_file_eq)
  moreover have "snd (edit_file env d w) = Inr [Lit ''Error: Could not edit file'']"
    using eq inner exc by (simp add: edit_file_eq)
  moreover have "\<not> list_ex is_effect (fst (edit_file env d w))"
    using eq inner exc npre by (auto simp: edit_file_eq list_ex_iff)
  ultimately show ?thesis by blast
qed

theorem service_error_reported_witness:
  "Call_json_prompt (JStr ''login page'')
     \<in> set (fst (edit_file failing_service_env ''login page'' None)) \<and>
   json_prompt failing_service_env (JStr ''login page'') = Inl OtherException \<and>
   is_Exception OtherException \<and>
   snd (edit_file failing_service_env ''login page'' None) =
     Inr [Lit ''Error: Could not edit file''] \<and>
   \<not> list_ex is_effect (fst (edit_file failing_service_env ''login page'' None))"
proof -
  have c: "Call_json_prompt (JStr ''login page'')
             \<in> set (fst (edit_file failing_service_env ''login page'' None))"
    by (simp add: failing_service_env_def example_env_def eval_defs)
  have r: "json_prompt failing_service_env (JStr ''login page'') = Inl OtherException"
    by (simp add: failing_service_env_def example_env_def)
  have x: "is_Exception OtherException"
    by (simp add: is_Exception_def)
  show ?thesis
    using c r x service_error_reported [OF c r x] by simp
qed

text \<open>
  C5, as the claim states it, fails: a score that is present but is not a number is kept
  as it is, not replaced by the default, and two scores that cannot be compared make the
  sort raise.
\<close>

theorem malformed_score_counterexample:
  "rank [JDict [(''file'', JStr ''a.py''), (''confidence_score'', JStr ''high'')],
         JDict [(''file'', JStr ''b.py''), (''confidence_score'', JFloat (1 / 2))]]
     = Inl TypeError \<and>
   parse_match (JDict [(''file'', JStr ''a.py''), (''confidence_score'', JNull)])
     = Inr \<lparr>file_path = JStr ''a.py'', confidence_score = JNull,
            file_type = JStr ''unknown''\<rparr>"
  by (simp add: rank_def parse_match_dict)

text \<open>
  C5, amended. Parsing a record that is a dict never raises; each field of the result is
  the value of its key when the key is present, whatever that value is, and the default
  (the empty string, \<^verbatim>\<open>0.8\<close>, \<^verbatim>\<open>"unknown"\<close>) when the key is absent. Parsing a
  list of dicts never raises, and ranking never raises when in addition every score that
  is present is a number, finite or not.
\<close>

theorem parse_defaults_for_absent_fields:
  "parse_match (JDict kvs) =
     Inr \<lparr>file_path = (case map_of kvs ''file'' of None \<Rightarrow> JStr [] | Some v \<Rightarrow> v),
          confidence_score =
            (case map_of kvs ''confidence_score'' of None \<Rightarrow> JFloat float_0_8 | Some v \<Rightarrow> v),
          file_type =
            (case map_of kvs ''file_type'' of None \<Rightarrow> JStr ''unknown'' | Some v \<Rightarrow> v)\<rparr> \<and>
   (list_all is_dict raw \<longrightarrow> (\<exists>ms. parse_all raw = Inr ms)) \<and>
   (list_all numeric_record raw \<longrightarrow> (\<exists>ms. rank raw = Inr ms))"
proof -
  have "\<exists>ms. parse_all raw = Inr ms" if "list_all is_dict raw"
  proof -
    from that have "\<forall>r \<in> set raw. \<exists>kvs. r = JDict kvs"
      by (simp add: list_all_iff is_dict_iff)
    then show ?thesis using parse_all_dicts by blast
  qed
  moreover have "\<exists>ms. rank raw = Inr ms" if "list_all numeric_record raw"
  proof -
    from that have "\<forall>r \<in> set raw. numeric_record r" by (simp add: list_all_iff)
    then obtain ms where "parse_all raw = Inr ms"
        "\<forall>m \<in> set ms. number_of (confidence_score m) \<noteq> None"
      using parse_all_numeric by blast
    then show ?thesis using sort_matches_total[of ms] by (simp add: rank_def)
  qed
  ultimately show ?thesis by (simp add: parse_match_dict)
qed

theorem parse_defaults_for_absent_fields_witness:
  "parse_match (JDict [(''file'', JStr ''b.py''), (''file_type'', JStr ''module'')]) =
     Inr \<lparr>file_path = JStr ''b.py'', confidence_score = JFloat float_0_8,
          file_type = JStr ''module''\<rparr> \<and>
   list_all is_dict example_results \<and>
   (\<exists>ms. parse_all example_results = Inr ms) \<and>
   list_all numeric_record example_results \<and>
   (\<exists>ms. rank example_results = Inr ms)"
proof -
  have d: "list_all is_dict example_results"
    by (simp add: example_results_def is_dict_def)
  have e: "list_all numeric_record example_results"
    by (simp add: example_results_def numeric_record_def)
  show ?thesis
    using d e
      parse_defaults_for_absent_fields
        [of "[(''file'', JStr ''b.py''), (''file_type'', JStr ''module'')]" example_results]
    by simp
qed

text \<open>
  C6. When the list parsed from the response is empty, as it is when the response has no
  \<^verbatim>\<open>results\<close> key or an empty list under it, the resolution returns the message
  \<^verbatim>\<open>No matching files found\<close> and causes no event at all: the user is not asked.
\<close>

theorem empty_results_no_match:
  "(parse_matches response = Inr [] \<longrightarrow>
      resolve_response env project_root response = ([], Inr [Lit ''No matching files found'']) \<and>
      \<not> list_ex is_prompt (fst (resolve_response env project_root response))) \<and>
   (map_of kvs ''results'' = None \<longrightarrow> parse_matches (JDict kvs) = Inr []) \<and>
   (map_of kvs ''results'' = Some (JList []) \<longrightarrow> parse_matches (JDict kvs) = Inr [])"
  by (simp add: resolve_response_def resolve_def lift_def ret_def
        parse_matches_def py_get_default_def py_get_def py_iter_def)

theorem empty_results_no_match_witness:
  "parse_matches (JDict [(''model'', JStr ''deepseek'')]) = Inr [] \<and>
   map_of [(''model'', JStr ''deepseek'')] ''results'' = None \<and>
   resolve_response example_env (JStr ''/proj'') (JDict [(''model'', JStr ''deepseek'')]) =
     ([], Inr [Lit ''No matching files found''])"
  using empty_results_no_match
    [of "JDict [(''model'', JStr ''deepseek'')]" example_env "JStr ''/proj''"
        "[(''model'', JStr ''deepseek'')]"]
  by simp




text \<open>
  C8 asks for a cache entry on every file that is opened. The two paths that open a
  matched file update the cache and then launch the editor; the recent-files shortcut
  opens the chosen file with the shell command alone: with two cached files and the reply
  \<^verbatim>\<open>1\<close> the file is opened and the only effect of the run is that command, without
  any cache update.
\<close>

theorem recent_open_skips_cache_update:
  "snd (edit_file example_env ''recent'' None) =
     Inr [Lit ''========== Opened recent file: '', Lit ''x.py''] \<and>
   filter is_effect (fst (edit_file example_env ''recent'' None)) =
     [Call_os_system ''code --goto x.py'']"
  by (simp add: example_env_def eval_defs)

text \<open>
  C9 is about a workspace named by the option. The option is never looked up: with the
  option \<^verbatim>\<open>ghost\<close>, which the configuration does not contain, and no current
  workspace, the run goes on with the default project root, calls the matching service
  and opens a file.
\<close>

theorem workspace_option_not_looked_up:
  "snd (edit_file example_env ''login page'' (Some ''ghost'')) =
     Inr [Lit ''Opened file: '', Lit ''/proj/d.py''] \<and>
   list_ex is_matching_call (fst (edit_file example_env ''login page'' (Some ''ghost'')))"
  by (simp add: example_env_def example_results_def eval_defs)

text \<open>
  C10, as the claim states it, fails: the parameter is read once before it is overwritten,
  by the debug print of line 142, so two runs that differ in the option differ in that
  line of output.
\<close>

theorem workspace_option_counterexample:
  "fst (edit_file example_env ''login page'' (Some ''ghost'')) \<noteq>
   fst (edit_file example_env ''login page'' None)"
  by (simp add: edit_file_option of_opt_def)

text \<open>
  C10, amended. Two runs that differ only in the workspace option return the same message
  and cause the same events, but for the second event, the debug line that prints the
  option.
\<close>

theorem workspace_option_only_in_debug_line:
  "snd (edit_file env d w) = snd (edit_file env d w') \<and>
   drop 2 (fst (edit_file env d w)) = drop 2 (fst (edit_file env d w')) \<and>
   take 2 (fst (edit_file env d w)) =
     [Print [Lit ''DEBUG: Starting edit_file command''],
      Print [Lit ''DEBUG: Getting workspace config for '',
             Lit [CHR 0x27], Val (of_opt w), Lit [CHR 0x27]]]"
  by (simp add: edit_file_option [of env d w] edit_file_option [of env d w'])

theorem workspace_option_only_in_debug_line_witness:
  "snd (edit_file example_env ''login page'' (Some ''ghost'')) =
     snd (edit_file example_env ''login page'' None) \<and>
   drop 2 (fst (edit_file example_env ''login page'' (Some ''ghost''))) =
     drop 2 (fst (edit_file example_env ''login page'' None)) \<and>
   take 2 (fst (edit_file example_env ''login page'' (Some ''ghost''))) =
     [Print [Lit ''DEBUG: Starting edit_file command''],
      Print [Lit ''DEBUG: Getting workspace config for '',
             Lit [CHR 0x27], Val (of_opt (Some ''ghost'')), Lit [CHR 0x27]]]"
  by (rule workspace_option_only_in_debug_line)

end
